theory Spec2Isabelle
  imports Main "HOL-Library.AList" "HOL-Library.List_Lexorder" "HOL-Library.Char_ord"
begin


section \<open>Data model\<close>

text \<open>
  The consensus core of coinkit: the nomination state, the ballot state, the block that
  binds them to one slot and the chain that advances slots. Go's \<open>int\<close> is modelled as
  \<open>int\<close>: the counters are only compared, copied from messages and incremented by one,
  and no property below depends on the behaviour at \<open>2^63 - 1\<close>. A Go map that is
  iterated (\<open>N\<close>, \<open>M\<close>) is an association list; storing a key replaces its entry in place
  or appends a new one. Record fields carry a prefix, because the source's one-letter
  field names (\<open>n\<close>, \<open>x\<close>, \<open>b\<close>, \<open>p\<close>, \<open>z\<close>) would capture the variables of every statement.
\<close>

text \<open>\<open>SlotValue\<close> is opaque and comparable for equality; \<open>Equal(a, b)\<close> is \<open>a = b\<close>.\<close>

type_synonym SlotValue = string

record QuorumSlice =
  Members :: "string list"
  Threshold :: int

datatype Phase = Prepare | Confirm | Externalize

record Ballot =
  bal_n :: int
  bal_x :: SlotValue

record NominationMessage =
  nm_I :: int
  Nom :: "SlotValue list"
  Acc :: "SlotValue list"
  nm_D :: QuorumSlice

record PrepareMessage =
  pm_I :: int
  Bn :: int
  Bx :: SlotValue
  Pn :: int
  Px :: SlotValue
  Ppn :: int
  Ppx :: SlotValue
  pm_Cn :: int
  pm_Hn :: int
  pm_D :: QuorumSlice

record ConfirmMessage =
  cm_I :: int
  cm_X :: SlotValue
  cm_Pn :: int
  cm_Cn :: int
  cm_Hn :: int
  cm_D :: QuorumSlice

record ExternalizeMessage =
  em_I :: int
  em_X :: SlotValue
  em_Cn :: int
  em_Hn :: int
  em_D :: QuorumSlice

text \<open>The interface \<open>BallotMessage\<close> with its three implementations.\<close>

datatype BallotMessage =
  PrepareM PrepareMessage
| ConfirmM ConfirmMessage
| ExternalizeM ExternalizeMessage

text \<open>
  \<open>log.Fatal\<close>, \<open>log.Fatalf\<close> and \<open>panic\<close> abort the process with a message; reading a
  field through a nil pointer panics as well.
\<close>

datatype error = InvariantViolation string | NilDereference

record NominationState =
  ns_X :: "SlotValue list"
  ns_Y :: "SlotValue list"
  ns_Z :: "SlotValue list"
  ns_N :: "(string \<times> NominationMessage) list"
  ns_publicKey :: string
  ns_D :: QuorumSlice
  ns_received :: int

record BallotState =
  bs_phase :: Phase
  bs_b :: "Ballot option"
  bs_last :: "Ballot option"
  bs_p :: "Ballot option"
  bs_pPrime :: "Ballot option"
  bs_cn :: int
  bs_hn :: int
  bs_z :: "SlotValue option"
  bs_M :: "(string \<times> BallotMessage) list"
  bs_publicKey :: string
  bs_D :: QuorumSlice
  bs_received :: int

text \<open>
  The functions that the state machines call and whose code is not part of the sources at
  hand: the quorum predicates, the predicates a ballot message exposes, the message
  order, the ballot comparisons and the value combinator. The operations below take them
  as a parameter, so every statement proved for an arbitrary \<open>E\<close> holds whatever these
  functions compute. \<open>MeetsQuorum\<close> receives what its first argument exposes in the
  source: the node's own key and the lookup of declared slices.
\<close>

record env =
  MeetsQuorum :: "string \<Rightarrow> (string \<Rightarrow> QuorumSlice option) \<Rightarrow> string list \<Rightarrow> bool"
  BlockedBy :: "QuorumSlice \<Rightarrow> string list \<Rightarrow> bool"
  AcceptAsPrepared :: "BallotMessage \<Rightarrow> int \<Rightarrow> SlotValue \<Rightarrow> bool"
  VoteToPrepare :: "BallotMessage \<Rightarrow> int \<Rightarrow> SlotValue \<Rightarrow> bool"
  AcceptAsCommitted :: "BallotMessage \<Rightarrow> int \<Rightarrow> SlotValue \<Rightarrow> bool"
  VoteToCommit :: "BallotMessage \<Rightarrow> int \<Rightarrow> SlotValue \<Rightarrow> bool"
  CouldEverVoteFor :: "BallotMessage \<Rightarrow> int \<Rightarrow> SlotValue \<Rightarrow> bool"
  Compare :: "BallotMessage \<Rightarrow> BallotMessage \<Rightarrow> int"
  gtecompat :: "Ballot option \<Rightarrow> Ballot \<Rightarrow> bool"
  gteincompat :: "Ballot option \<Rightarrow> Ballot \<Rightarrow> bool"
  CombineSlice :: "SlotValue list \<Rightarrow> SlotValue"

section \<open>The ballot state\<close>

definition NewBallotState :: "string \<Rightarrow> QuorumSlice \<Rightarrow> BallotState" where
  "NewBallotState publicKey qs =
     \<lparr>bs_phase = Prepare, bs_b = None, bs_last = None, bs_p = None, bs_pPrime = None,
      bs_cn = 0, bs_hn = 0, bs_z = None, bs_M = [], bs_publicKey = publicKey, bs_D = qs,
      bs_received = 0\<rparr>"

fun msg_QuorumSlice :: "BallotMessage \<Rightarrow> QuorumSlice" where
  "msg_QuorumSlice (PrepareM m) = pm_D m"
| "msg_QuorumSlice (ConfirmM m) = cm_D m"
| "msg_QuorumSlice (ExternalizeM m) = em_D m"

definition bs_QuorumSlice :: "BallotState \<Rightarrow> string \<Rightarrow> QuorumSlice option" where
  "bs_QuorumSlice s node =
     (if node = bs_publicKey s then Some (bs_D s)
      else case map_of (bs_M s) node of
             None \<Rightarrow> None
           | Some m \<Rightarrow> Some (msg_QuorumSlice m))"

text \<open>The two node lists that \<open>MaybeAcceptAsPrepared\<close> collects before it decides.\<close>

definition prepared_votedOrAccepted :: "env \<Rightarrow> int \<Rightarrow> SlotValue \<Rightarrow> BallotState \<Rightarrow> string list" where
  "prepared_votedOrAccepted E n x s =
     (if (case bs_b s of None \<Rightarrow> False | Some bb \<Rightarrow> bal_n bb \<ge> n \<and> bal_x bb = x)
      then [bs_publicKey s] else [])
     @ map fst (filter (\<lambda>(node, m). AcceptAsPrepared E m n x \<or> VoteToPrepare E m n x) (bs_M s))"

definition prepared_accepted :: "env \<Rightarrow> int \<Rightarrow> SlotValue \<Rightarrow> BallotState \<Rightarrow> string list" where
  "prepared_accepted E n x s =
     map fst (filter (\<lambda>(node, m). AcceptAsPrepared E m n x) (bs_M s))"

definition AcceptedAbort :: "BallotState \<Rightarrow> int \<Rightarrow> SlotValue \<Rightarrow> error + bool" where
  "AcceptedAbort s n x =
     (if bs_phase s \<noteq> Prepare then
        (case bs_b s of None \<Rightarrow> Inl NilDereference | Some bb \<Rightarrow> Inr (x \<noteq> bal_x bb))
      else if (case bs_p s of None \<Rightarrow> False | Some pp \<Rightarrow> bal_n pp \<ge> n \<and> bal_x pp \<noteq> x)
        then Inr True
      else if (case bs_pPrime s of None \<Rightarrow> False | Some pp \<Rightarrow> bal_n pp \<ge> n \<and> bal_x pp \<noteq> x)
        then Inr True
      else Inr False)"

text \<open>
  The loop at the end of \<open>MaybeAcceptAsPrepared\<close>:
  \<open>for s.cn != 0 && s.AcceptedAbort(s.cn, s.b.x) { s.cn++; if s.cn > s.hn { s.cn = 0 } }\<close>.
\<close>

function giveUpVotes :: "BallotState \<Rightarrow> error + BallotState" where
  "giveUpVotes s =
     (if bs_cn s = 0 then Inr s
      else case bs_b s of
             None \<Rightarrow> Inl NilDereference
           | Some bb \<Rightarrow>
               (case AcceptedAbort s (bs_cn s) (bal_x bb) of
                  Inl e \<Rightarrow> Inl e
                | Inr aborted \<Rightarrow>
                    if aborted
                    then giveUpVotes (s\<lparr>bs_cn := (if bs_cn s + 1 > bs_hn s then 0 else bs_cn s + 1)\<rparr>)
                    else Inr s))"
  by pat_completeness auto
termination
  by (relation "measure (\<lambda>s. if bs_cn s = 0 then 0
                             else if bs_cn s < 0 then nat (- bs_cn s)
                             else nat (bs_hn s + 1 - bs_cn s) + 1)") auto

text \<open>
  The two middle blocks of \<open>MaybeAcceptAsPrepared\<close>: accepting \<open>(n, x)\<close> as prepared aborts
  an incompatible \<open>b\<close> that is not above it, and \<open>p\<close>, \<open>pPrime\<close> are updated to remain the
  top two conflicting ballots accepted as prepared.
\<close>

definition abortBallot :: "int \<Rightarrow> SlotValue \<Rightarrow> BallotState \<Rightarrow> BallotState" where
  "abortBallot n x s =
     (if (case bs_b s of None \<Rightarrow> False | Some bb \<Rightarrow> bal_n bb \<le> n \<and> bal_x bb \<noteq> x)
      then s\<lparr>bs_cn := 0, bs_b := Some \<lparr>bal_n = n, bal_x = x\<rparr>\<rparr>
      else s)"

definition updatePrepared :: "int \<Rightarrow> SlotValue \<Rightarrow> BallotState \<Rightarrow> error + BallotState" where
  "updatePrepared n x s =
     (let ballot = \<lparr>bal_n = n, bal_x = x\<rparr>
      in case bs_p s of
           None \<Rightarrow> Inr (s\<lparr>bs_p := Some ballot\<rparr>)
         | Some pp \<Rightarrow>
             if bal_x pp = x then
               (if n \<le> bal_n pp
                then Inl (InvariantViolation ''should have short circuited already'')
                else Inr (s\<lparr>bs_p := Some ballot\<rparr>))
             else if n \<ge> bal_n pp then Inr (s\<lparr>bs_pPrime := bs_p s, bs_p := Some ballot\<rparr>)
             else Inr (s\<lparr>bs_pPrime := Some ballot\<rparr>))"

definition MaybeAcceptAsPrepared ::
  "env \<Rightarrow> int \<Rightarrow> SlotValue \<Rightarrow> BallotState \<Rightarrow> error + (bool \<times> BallotState)" where
  "MaybeAcceptAsPrepared E n x s =
     (if bs_phase s \<noteq> Prepare then Inr (False, s)
      else if n = 0 then Inr (False, s)
      else if (case bs_p s of None \<Rightarrow> False | Some pp \<Rightarrow> bal_n pp \<ge> n \<and> bal_x pp = x)
        then Inr (False, s)
      else if (case bs_pPrime s of None \<Rightarrow> False | Some pp \<Rightarrow> bal_n pp \<ge> n \<and> bal_x pp = x)
        then Inr (False, s)
      else if (case bs_pPrime s of None \<Rightarrow> False | Some pp \<Rightarrow> bal_n pp \<ge> n)
        then Inr (False, s)
      else if \<not> MeetsQuorum E (bs_publicKey s) (bs_QuorumSlice s) (prepared_votedOrAccepted E n x s)
              \<and> \<not> BlockedBy E (bs_D s) (prepared_accepted E n x s)
        then Inr (False, s)
      else
        case updatePrepared n x (abortBallot n x s) of
          Inl e \<Rightarrow> Inl e
        | Inr s2 \<Rightarrow>
            (case bs_b s2 of
               None \<Rightarrow> Inr (True, s2)
             | Some bb \<Rightarrow>
                 (case giveUpVotes s2 of Inl e \<Rightarrow> Inl e | Inr s3 \<Rightarrow> Inr (True, s3))))"

text \<open>The node list that \<open>MaybeConfirmAsPrepared\<close> collects.\<close>

definition confirm_prepared_accepted :: "env \<Rightarrow> int \<Rightarrow> SlotValue \<Rightarrow> BallotState \<Rightarrow> string list" where
  "confirm_prepared_accepted E n x s =
     (let ballot = \<lparr>bal_n = n, bal_x = x\<rparr>
      in (if gtecompat E (bs_p s) ballot \<or> gtecompat E (bs_pPrime s) ballot
          then [bs_publicKey s] else [])
         @ map fst (filter (\<lambda>(node, m). AcceptAsPrepared E m n x) (bs_M s)))"

definition MaybeConfirmAsPrepared ::
  "env \<Rightarrow> int \<Rightarrow> SlotValue \<Rightarrow> BallotState \<Rightarrow> error + (bool \<times> BallotState)" where
  "MaybeConfirmAsPrepared E n x s =
     (if bs_phase s \<noteq> Prepare then Inr (False, s)
      else if bs_hn s \<ge> n then Inr (False, s)
      else if \<not> MeetsQuorum E (bs_publicKey s) (bs_QuorumSlice s) (confirm_prepared_accepted E n x s)
        then Inr (False, s)
      else if bs_cn s > 0 \<and> bs_b s = None then Inl NilDereference
      else if bs_cn s > 0 \<and> x \<noteq> bal_x (the (bs_b s))
        then Inl (InvariantViolation ''we are voting to commit but must confirm a contradiction'')
      else
        let ballot = \<lparr>bal_n = n, bal_x = x\<rparr>;
            s1 = s\<lparr>bs_hn := n, bs_z := Some x\<rparr>;
            s2 = (if bs_b s1 = None then s1\<lparr>bs_b := Some ballot\<rparr> else s1);
            bb = the (bs_b s2)
        in if bs_cn s2 = 0 \<and> x = bal_x bb then
             (if gteincompat E (bs_p s2) ballot \<or> gteincompat E (bs_pPrime s2) ballot
                then Inr (True, s2)
              else if bal_n bb > n then Inr (True, s2)
              else Inr (True, s2\<lparr>bs_cn := bal_n bb\<rparr>))
           else Inr (True, s2))"

text \<open>The two node lists that \<open>MaybeAcceptAsCommitted\<close> collects.\<close>

definition committed_votedOrAccepted :: "env \<Rightarrow> int \<Rightarrow> SlotValue \<Rightarrow> BallotState \<Rightarrow> string list" where
  "committed_votedOrAccepted E n x s =
     (if bs_phase s = Prepare
         \<and> (case bs_b s of None \<Rightarrow> False | Some bb \<Rightarrow> bal_x bb = x)
         \<and> bs_cn s \<noteq> 0 \<and> bs_cn s \<le> n \<and> n \<le> bs_hn s
      then [bs_publicKey s] else [])
     @ map fst (filter (\<lambda>(node, m). AcceptAsCommitted E m n x \<or> VoteToCommit E m n x) (bs_M s))"

definition committed_accepted :: "env \<Rightarrow> int \<Rightarrow> SlotValue \<Rightarrow> BallotState \<Rightarrow> string list" where
  "committed_accepted E n x s =
     map fst (filter (\<lambda>(node, m). AcceptAsCommitted E m n x) (bs_M s))"

definition MaybeAcceptAsCommitted ::
  "env \<Rightarrow> int \<Rightarrow> SlotValue \<Rightarrow> BallotState \<Rightarrow> bool \<times> BallotState" where
  "MaybeAcceptAsCommitted E n x s =
     (if bs_phase s = Externalize then (False, s)
      else if bs_phase s = Confirm \<and> bs_cn s \<le> n \<and> n \<le> bs_hn s then (False, s)
      else if \<not> MeetsQuorum E (bs_publicKey s) (bs_QuorumSlice s) (committed_votedOrAccepted E n x s)
              \<and> \<not> BlockedBy E (bs_D s) (committed_accepted E n x s)
        then (False, s)
      else
        let s1 = s\<lparr>bs_phase := Confirm\<rparr>
        in if (case bs_b s1 of None \<Rightarrow> True | Some bb \<Rightarrow> bal_x bb \<noteq> x)
           then (True, s1\<lparr>bs_b := Some \<lparr>bal_n = n, bal_x = x\<rparr>, bs_cn := n, bs_hn := n,
                          bs_z := Some x\<rparr>)
           else
             let s2 = (if n < bs_cn s1 then s1\<lparr>bs_cn := n\<rparr> else s1);
                 s3 = (if n > bs_hn s2 then s2\<lparr>bs_hn := n\<rparr> else s2)
             in (True, s3))"

text \<open>The node list that \<open>MaybeConfirmAsCommitted\<close> collects.\<close>

definition confirm_committed_accepted :: "env \<Rightarrow> int \<Rightarrow> SlotValue \<Rightarrow> BallotState \<Rightarrow> string list" where
  "confirm_committed_accepted E n x s =
     (if bs_phase s = Confirm \<and> bs_cn s \<le> n \<and> n \<le> bs_hn s then [bs_publicKey s] else [])
     @ map fst (filter (\<lambda>(node, m). AcceptAsCommitted E m n x) (bs_M s))"

definition MaybeConfirmAsCommitted ::
  "env \<Rightarrow> int \<Rightarrow> SlotValue \<Rightarrow> BallotState \<Rightarrow> bool \<times> BallotState" where
  "MaybeConfirmAsCommitted E n x s =
     (if bs_phase s = Prepare then (False, s)
      else if (case bs_b s of None \<Rightarrow> True | Some bb \<Rightarrow> bal_x bb \<noteq> x) then (False, s)
      else if bs_phase s \<noteq> Confirm \<and> bs_cn s \<le> n \<and> n \<le> bs_hn s then (False, s)
      else if \<not> MeetsQuorum E (bs_publicKey s) (bs_QuorumSlice s) (confirm_committed_accepted E n x s)
        then (False, s)
      else if bs_phase s = Confirm
        then (True, s\<lparr>bs_phase := Externalize, bs_cn := n, bs_hn := n\<rparr>)
      else
        let s2 = (if n < bs_cn s then s\<lparr>bs_cn := n\<rparr> else s);
            s3 = (if n > bs_hn s2 then s2\<lparr>bs_hn := n\<rparr> else s2)
        in (True, s3))"


definition MaybeNextBallot :: "env \<Rightarrow> BallotState \<Rightarrow> bool \<times> BallotState" where
  "MaybeNextBallot E s =
     (case bs_z s of
        None \<Rightarrow> (False, s)
      | Some zv \<Rightarrow>
          (case bs_b s of
             None \<Rightarrow> (False, s)
           | Some bb \<Rightarrow>
               let blockers = map fst (filter (\<lambda>(node, m). \<not> CouldEverVoteFor E m (bal_n bb) (bal_x bb))
                                         (bs_M s))
               in if \<not> BlockedBy E (bs_D s) blockers then (False, s)
                  else (True, s\<lparr>bs_b := Some \<lparr>bal_n = bal_n bb + 1, bal_x = zv\<rparr>\<rparr>)))"

text \<open>\<open>Investigate\<close> runs the four steps in order and drops their boolean results.\<close>

definition Investigate :: "env \<Rightarrow> int \<Rightarrow> SlotValue \<Rightarrow> BallotState \<Rightarrow> error + BallotState" where
  "Investigate E n x s =
     (case MaybeAcceptAsPrepared E n x s of
        Inl e \<Rightarrow> Inl e
      | Inr (_, s1) \<Rightarrow>
          (case MaybeConfirmAsPrepared E n x s1 of
             Inl e \<Rightarrow> Inl e
           | Inr (_, s2) \<Rightarrow>
               Inr (snd (MaybeConfirmAsCommitted E n x (snd (MaybeAcceptAsCommitted E n x s2))))))"

definition SelfInvestigate :: "env \<Rightarrow> BallotState \<Rightarrow> error + BallotState" where
  "SelfInvestigate E s =
     (case bs_b s of None \<Rightarrow> Inr s | Some bb \<Rightarrow> Investigate E (bal_n bb) (bal_x bb) s)"

text \<open>Running a fallible step over a list stops at the first abort.\<close>

fun foldE :: "('a \<Rightarrow> 's \<Rightarrow> error + 's) \<Rightarrow> 'a list \<Rightarrow> 's \<Rightarrow> error + 's" where
  "foldE f [] s = Inr s"
| "foldE f (a # as) s = (case f a s of Inl e \<Rightarrow> Inl e | Inr s' \<Rightarrow> foldE f as s')"

text \<open>The type switch inside the loop of \<open>Handle\<close>: which ballots a message makes us investigate.\<close>

fun investigateMessage :: "env \<Rightarrow> BallotMessage \<Rightarrow> BallotState \<Rightarrow> error + BallotState" where
  "investigateMessage E (PrepareM m) s =
     (case Investigate E (Bn m) (Bx m) s of
        Inl e \<Rightarrow> Inl e
      | Inr s1 \<Rightarrow>
          (case Investigate E (Pn m) (Px m) s1 of
             Inl e \<Rightarrow> Inl e
           | Inr s2 \<Rightarrow> Investigate E (Ppn m) (Ppx m) s2))"
| "investigateMessage E (ConfirmM m) s = Investigate E (cm_Hn m) (cm_X m) s"
| "investigateMessage E (ExternalizeM m) s =
     foldE (\<lambda>i. Investigate E i (em_X m)) [em_Cn m .. em_Hn m] s"

text \<open>
  The loop of \<open>Handle\<close>, \<open>for { ...; if !s.MaybeNextBallot() { break } }\<close>, has no bound in
  the source. The model counts its rounds: \<open>None\<close> means that the given number of rounds
  did not reach the \<open>break\<close>.
\<close>

fun HandleLoop :: "env \<Rightarrow> nat \<Rightarrow> BallotMessage \<Rightarrow> BallotState \<Rightarrow> (error + BallotState) option" where
  "HandleLoop E 0 message s = None"
| "HandleLoop E (Suc k) message s =
     (case investigateMessage E message s of
        Inl e \<Rightarrow> Some (Inl e)
      | Inr s1 \<Rightarrow>
          (case MaybeNextBallot E s1 of
             (bumped, s2) \<Rightarrow> if bumped then HandleLoop E k message s2 else Some (Inr s2)))"

definition BallotState_Handle ::
  "env \<Rightarrow> nat \<Rightarrow> string \<Rightarrow> BallotMessage \<Rightarrow> BallotState \<Rightarrow> (error + BallotState) option" where
  "BallotState_Handle E fuel node message s =
     (if (case map_of (bs_M s) node of None \<Rightarrow> False | Some old \<Rightarrow> Compare E old message \<ge> 0)
      then Some (Inr s)
      else HandleLoop E fuel message
             (s\<lparr>bs_received := bs_received s + 1, bs_M := AList.update node message (bs_M s)\<rparr>))"

definition MaybeInitializeValue :: "SlotValue \<Rightarrow> BallotState \<Rightarrow> bool \<times> BallotState" where
  "MaybeInitializeValue v s =
     (if bs_z s \<noteq> None then (False, s)
      else
        let s1 = s\<lparr>bs_z := Some v\<rparr>
        in if bs_b s1 = None then (True, s1\<lparr>bs_b := Some \<lparr>bal_n = 1, bal_x = v\<rparr>\<rparr>)
           else (True, s1))"

section \<open>The nomination state\<close>

definition NewNominationState :: "string \<Rightarrow> QuorumSlice \<Rightarrow> NominationState" where
  "NewNominationState publicKey qs =
     \<lparr>ns_X = [], ns_Y = [], ns_Z = [], ns_N = [], ns_publicKey = publicKey, ns_D = qs,
      ns_received = 0\<rparr>"

text \<open>
  Modelled from the spec: \<open>HasSlotValue(list, v)\<close>, whose code is not at hand, tells whether
  \<open>v\<close> occurs in the list ("if not already in X, add to X").
\<close>

definition HasSlotValue :: "SlotValue list \<Rightarrow> SlotValue \<Rightarrow> bool" where
  "HasSlotValue list v = (v \<in> set list)"

text \<open>
  Modelled from the spec: \<open>AssertNoDupes(list)\<close>, whose code is not at hand, aborts when a
  value occurs twice ("duplicates within a list must be rejected as an invariant violation").
\<close>

definition AssertNoDupes :: "SlotValue list \<Rightarrow> error + unit" where
  "AssertNoDupes list = (if distinct list then Inr () else Inl (InvariantViolation ''duplicate slot value''))"

definition HasNomination :: "NominationState \<Rightarrow> bool" where
  "HasNomination s = (length (ns_X s) > 0)"

definition SetDefault :: "SlotValue \<Rightarrow> NominationState \<Rightarrow> NominationState" where
  "SetDefault v s = (if HasNomination s then s else s\<lparr>ns_X := [v]\<rparr>)"

text \<open>\<open>PredictValue\<close> reads the state and returns a value or panics; it has no state to return.\<close>

definition PredictValue :: "env \<Rightarrow> NominationState \<Rightarrow> error + SlotValue" where
  "PredictValue E s =
     (if length (ns_Z s) > 0 then Inr (CombineSlice E (ns_Z s))
      else if length (ns_Y s) > 0 then Inr (CombineSlice E (ns_Y s))
      else if length (ns_X s) > 0 then Inr (CombineSlice E (ns_X s))
      else Inl (InvariantViolation ''PredictValue was called when HasNomination was false''))"

definition ns_QuorumSlice :: "NominationState \<Rightarrow> string \<Rightarrow> QuorumSlice option" where
  "ns_QuorumSlice s node =
     (if node = ns_publicKey s then Some (ns_D s)
      else case map_of (ns_N s) node of
             None \<Rightarrow> None
           | Some m \<Rightarrow> Some (nm_D m))"

definition NominationState_AssertValid :: "NominationState \<Rightarrow> error + unit" where
  "NominationState_AssertValid s =
     (case AssertNoDupes (ns_X s) of
        Inl e \<Rightarrow> Inl e
      | Inr _ \<Rightarrow> (case AssertNoDupes (ns_Y s) of Inl e \<Rightarrow> Inl e | Inr _ \<Rightarrow> AssertNoDupes (ns_Z s)))"

text \<open>The two node lists that \<open>MaybeAdvance\<close> collects before it decides.\<close>

definition nominate_votedOrAccepted :: "SlotValue \<Rightarrow> NominationState \<Rightarrow> string list" where
  "nominate_votedOrAccepted v s =
     (if HasSlotValue (ns_X s) v then [ns_publicKey s] else [])
     @ map fst (filter (\<lambda>(node, m). HasSlotValue (Acc m) v \<or> HasSlotValue (Nom m) v) (ns_N s))"

definition nominate_accepted :: "SlotValue \<Rightarrow> NominationState \<Rightarrow> string list" where
  "nominate_accepted v s =
     (if HasSlotValue (ns_Y s) v then [ns_publicKey s] else [])
     @ map fst (filter (\<lambda>(node, m). HasSlotValue (Acc m) v) (ns_N s))"

definition MaybeAdvance :: "env \<Rightarrow> SlotValue \<Rightarrow> NominationState \<Rightarrow> error + (bool \<times> NominationState)" where
  "MaybeAdvance E v s =
     (if HasSlotValue (ns_Z s) v then Inr (False, s)
      else
        let votedOrAccepted = nominate_votedOrAccepted v s;
            accepted = nominate_accepted v s;
            accept = (MeetsQuorum E (ns_publicKey s) (ns_QuorumSlice s) votedOrAccepted
                      \<or> BlockedBy E (ns_D s) accepted)
        in case (if accept \<and> \<not> HasSlotValue (ns_Y s) v then
                   (case AssertNoDupes (ns_Y s) of
                      Inl e \<Rightarrow> Inl e
                    | Inr _ \<Rightarrow>
                        (case AssertNoDupes (ns_Y s @ [v]) of
                           Inl e \<Rightarrow> Inl e
                         | Inr _ \<Rightarrow> Inr (True, accepted @ [ns_publicKey s], s\<lparr>ns_Y := ns_Y s @ [v]\<rparr>)))
                 else Inr (False, accepted, s)) of
             Inl e \<Rightarrow> Inl e
           | Inr (changed, accepted1, s1) \<Rightarrow>
               if MeetsQuorum E (ns_publicKey s1) (ns_QuorumSlice s1) accepted1
               then Inr (True, s1\<lparr>ns_Z := ns_Z s1 @ [v]\<rparr>)
               else Inr (changed, s1))"

text \<open>
  The three loops of \<open>Handle\<close>. The first runs \<open>i\<close> from \<open>oldLenNom\<close> to \<open>len(m.Nom) - 1\<close>
  over the pair of \<open>touched\<close> and \<open>s.X\<close>, the second runs \<open>i\<close> from \<open>oldLenAcc\<close> to
  \<open>len(m.Acc) - 1\<close> over \<open>touched\<close>, the third calls \<open>MaybeAdvance\<close> on every touched value.
\<close>

definition nomStep :: "SlotValue list \<Rightarrow> nat \<Rightarrow> SlotValue list \<times> SlotValue list \<Rightarrow> SlotValue list \<times> SlotValue list" where
  "nomStep nom i tx =
     (case tx of (touched, X) \<Rightarrow>
        ((if \<not> HasSlotValue touched (nom ! i) then touched @ [nom ! i] else touched),
         (if \<not> HasSlotValue X (nom ! i) then X @ [nom ! i] else X)))"

definition accStep :: "SlotValue list \<Rightarrow> nat \<Rightarrow> SlotValue list \<Rightarrow> SlotValue list" where
  "accStep acc i touched =
     (if \<not> HasSlotValue touched (acc ! i) then touched @ [acc ! i] else touched)"

definition advanceAll :: "env \<Rightarrow> SlotValue list \<Rightarrow> NominationState \<Rightarrow> error + NominationState" where
  "advanceAll E touched s =
     foldE (\<lambda>v s'. case MaybeAdvance E v s' of Inl e \<Rightarrow> Inl e | Inr (_, s'') \<Rightarrow> Inr s'') touched s"

definition oldLens :: "NominationState \<Rightarrow> string \<Rightarrow> nat \<times> nat" where
  "oldLens s node =
     (case map_of (ns_N s) node of
        None \<Rightarrow> (0, 0)
      | Some old \<Rightarrow> (length (Nom old), length (Acc old)))"

definition NominationState_Handle ::
  "env \<Rightarrow> string \<Rightarrow> NominationMessage \<Rightarrow> NominationState \<Rightarrow> error + NominationState" where
  "NominationState_Handle E node m s =
     (case oldLens s node of (oldLenNom, oldLenAcc) \<Rightarrow>
        if length (Nom m) < oldLenNom then Inr s
        else if length (Acc m) < oldLenAcc then Inr s
        else if length (Nom m) = oldLenNom \<and> length (Acc m) = oldLenAcc then Inr s
        else
          let s1 = s\<lparr>ns_N := AList.update node m (ns_N s), ns_received := ns_received s + 1\<rparr>;
              (touched1, X1) = fold (nomStep (Nom m)) [oldLenNom ..< length (Nom m)] ([], ns_X s1);
              s2 = s1\<lparr>ns_X := X1\<rparr>;
              touched = fold (accStep (Acc m)) [oldLenAcc ..< length (Acc m)] touched1
          in advanceAll E touched s2)"

section \<open>Seeding the ballot state from the nomination\<close>

definition MaybeUpdateValue :: "env \<Rightarrow> NominationState \<Rightarrow> BallotState \<Rightarrow> error + (bool \<times> BallotState)" where
  "MaybeUpdateValue E ns s =
     (if bs_hn s \<noteq> 0 then Inr (False, s)
      else if \<not> HasNomination ns then Inr (False, s)
      else case PredictValue E ns of
             Inl e \<Rightarrow> Inl e
           | Inr v \<Rightarrow>
               if bs_z s = Some v then Inr (False, s)
               else
                 let s1 = s\<lparr>bs_z := Some v\<rparr>
                 in case bs_b s1 of
                      None \<Rightarrow> Inr (True, s1\<lparr>bs_b := Some \<lparr>bal_n = 1, bal_x = v\<rparr>\<rparr>)
                    | Some bb \<Rightarrow> Inr (True, s1\<lparr>bs_b := Some \<lparr>bal_n = bal_n bb + 1, bal_x = v\<rparr>\<rparr>))"

definition HasMessage :: "BallotState \<Rightarrow> bool" where
  "HasMessage s = (bs_b s \<noteq> None)"

text \<open>\<open>AssertValid\<close> aborts on a broken invariant and otherwise records \<open>last\<close>.\<close>

definition BallotState_AssertValid :: "BallotState \<Rightarrow> error + BallotState" where
  "BallotState_AssertValid s =
     (if bs_cn s > bs_hn s then Inl (InvariantViolation ''c should be <= h'')
      else if (case (bs_p s, bs_pPrime s) of
                 (Some pp, Some pq) \<Rightarrow> bal_x pp = bal_x pq
               | _ \<Rightarrow> False)
        then Inl (InvariantViolation ''p and p prime should not be compatible'')
      else
        case bs_b s of
          None \<Rightarrow> Inr s
        | Some bb \<Rightarrow>
            if bs_phase s \<noteq> Prepare then Inr s
            else if (case bs_p s of None \<Rightarrow> False
                     | Some pp \<Rightarrow> bal_x bb \<noteq> bal_x pp \<and> bs_cn s \<noteq> 0 \<and> bs_cn s \<le> bal_n pp)
              then Inl (InvariantViolation ''the vote to commit should have been aborted'')
            else if (case bs_pPrime s of None \<Rightarrow> False
                     | Some pp \<Rightarrow> bal_x bb \<noteq> bal_x pp \<and> bs_cn s \<noteq> 0 \<and> bs_cn s \<le> bal_n pp)
              then Inl (InvariantViolation ''the vote to commit should have been aborted'')
            else if (case bs_last s of None \<Rightarrow> False
                     | Some l \<Rightarrow> bal_x bb \<noteq> bal_x l \<and> bal_n l > bal_n bb)
              then Inl (InvariantViolation ''monotonicity violation'')
            else Inr (s\<lparr>bs_last := bs_b s\<rparr>))"


section \<open>Block and chain\<close>

text \<open>
  The block of the sources at hand is built by \<open>NewBlock(publicKey, qs, slot)\<close>; the chain
  passes its value store as a fourth argument, which that block does not have. The field
  \<open>start\<close> (a wall-clock time) is left out.
\<close>

record Block =
  blk_slot :: int
  nState :: NominationState
  bState :: BallotState
  external :: "ExternalizeMessage option"
  blk_D :: QuorumSlice
  blk_publicKey :: string

text \<open>
  The interface \<open>util.Message\<close>, as far as the chain tells its implementations apart: the
  nomination message, the three ballot messages, the info message and any other message,
  the last two with the slot they report.
\<close>

datatype Message =
  NominationMsg NominationMessage
| BallotMsg BallotMessage
| InfoMsg int
| OtherMsg int

fun Slot :: "Message \<Rightarrow> int" where
  "Slot (NominationMsg m) = nm_I m"
| "Slot (BallotMsg (PrepareM m)) = pm_I m"
| "Slot (BallotMsg (ConfirmM m)) = cm_I m"
| "Slot (BallotMsg (ExternalizeM m)) = em_I m"
| "Slot (InfoMsg i) = i"
| "Slot (OtherMsg i) = i"

definition NewBlock :: "string \<Rightarrow> QuorumSlice \<Rightarrow> int \<Rightarrow> Block" where
  "NewBlock publicKey qs slot =
     \<lparr>blk_slot = slot, nState = NewNominationState publicKey qs,
      bState = NewBallotState publicKey qs, external = None, blk_D = qs,
      blk_publicKey = publicKey\<rparr>"

definition Block_AssertValid :: "Block \<Rightarrow> error + Block" where
  "Block_AssertValid block =
     (case NominationState_AssertValid (nState block) of
        Inl e \<Rightarrow> Inl e
      | Inr _ \<Rightarrow>
          (case BallotState_AssertValid (bState block) of
             Inl e \<Rightarrow> Inl e
           | Inr bs \<Rightarrow> Inr (block\<lparr>bState := bs\<rparr>)))"

definition Done :: "Block \<Rightarrow> bool" where
  "Done block = (external block \<noteq> None)"

definition Block_Handle :: "env \<Rightarrow> nat \<Rightarrow> string \<Rightarrow> Message \<Rightarrow> Block \<Rightarrow> (error + Block) option" where
  "Block_Handle E fuel sender message block =
     (if sender = blk_publicKey block then Some (Inr block)
      else
        case (case message of
                NominationMsg m \<Rightarrow>
                  (case NominationState_Handle E sender m (nState block) of
                     Inl e \<Rightarrow> Some (Inl e)
                   | Inr ns \<Rightarrow>
                       (case MaybeUpdateValue E ns (bState block) of
                          Inl e \<Rightarrow> Some (Inl e)
                        | Inr (_, bs) \<Rightarrow> Some (Inr (block\<lparr>nState := ns, bState := bs\<rparr>))))
              | BallotMsg m \<Rightarrow>
                  (case BallotState_Handle E fuel sender m (bState block) of
                     None \<Rightarrow> None
                   | Some (Inl e) \<Rightarrow> Some (Inl e)
                   | Some (Inr bs) \<Rightarrow> Some (Inr (block\<lparr>bState := bs\<rparr>)))
              | _ \<Rightarrow> Some (Inr block)) of
          None \<Rightarrow> None
        | Some (Inl e) \<Rightarrow> Some (Inl e)
        | Some (Inr block1) \<Rightarrow> Some (Block_AssertValid block1))"

text \<open>
  The value store is an interface whose implementation the chain borrows: its state is the
  type \<open>'vs\<close>, its two methods that the chain calls are a parameter. \<open>Finalize\<close> may panic
  (the transaction queue does, on a value it does not know).
\<close>

record 'vs ValueStore =
  CanFinalize :: "'vs \<Rightarrow> SlotValue \<Rightarrow> bool"
  Finalize :: "'vs \<Rightarrow> SlotValue \<Rightarrow> error + 'vs"

record 'vs Chain =
  current :: Block
  history :: "int \<rightharpoonup> Block"
  ch_D :: QuorumSlice
  ch_publicKey :: string
  ch_values :: "'vs"

definition NewEmptyChain :: "string \<Rightarrow> QuorumSlice \<Rightarrow> 'vs \<Rightarrow> 'vs Chain" where
  "NewEmptyChain publicKey qs vs =
     \<lparr>current = NewBlock publicKey qs 1, history = Map.empty, ch_D = qs,
      ch_publicKey = publicKey, ch_values = vs\<rparr>"

fun isInfo :: "Message \<Rightarrow> bool" where
  "isInfo (InfoMsg i) = True"
| "isInfo _ = False"

fun isExternalize :: "Message \<Rightarrow> bool" where
  "isExternalize (BallotMsg (ExternalizeM m)) = True"
| "isExternalize _ = False"

text \<open>\<open>Chain.Handle\<close> returns the chain it leaves behind and the message it answers with.\<close>

definition Chain_Handle ::
  "'vs ValueStore \<Rightarrow> env \<Rightarrow> nat \<Rightarrow> string \<Rightarrow> Message \<Rightarrow> 'vs Chain
     \<Rightarrow> (error + ('vs Chain \<times> ExternalizeMessage option)) option" where
  "Chain_Handle V E fuel sender message c =
     (if sender = ch_publicKey c then Some (Inr (c, None))
      else
        let slot = Slot message
        in if slot = 0 then Some (Inl (InvariantViolation ''slot should not be zero''))
           else if isInfo message then
             (case history c slot of
                None \<Rightarrow> Some (Inr (c, None))
              | Some block \<Rightarrow> Some (Inr (c, external block)))
           else if slot = blk_slot (current c) then
             (case Block_Handle E fuel sender message (current c) of
                None \<Rightarrow> None
              | Some (Inl e) \<Rightarrow> Some (Inl e)
              | Some (Inr block) \<Rightarrow>
                  (case external block of
                     None \<Rightarrow> Some (Inr (c\<lparr>current := block\<rparr>, None))
                   | Some ext \<Rightarrow>
                       if CanFinalize V (ch_values c) (em_X ext) then
                         (case Finalize V (ch_values c) (em_X ext) of
                            Inl e \<Rightarrow> Some (Inl e)
                          | Inr vs \<Rightarrow>
                              Some (Inr (c\<lparr>ch_values := vs,
                                           history := (history c)(slot \<mapsto> block),
                                           current := NewBlock (ch_publicKey c) (ch_D c) (slot + 1)\<rparr>,
                                         None)))
                       else Some (Inr (c\<lparr>current := block\<rparr>, None))))
           else if isExternalize message then Some (Inr (c, None))
           else
             (case history c slot of
                None \<Rightarrow> Some (Inr (c, None))
              | Some oldBlock \<Rightarrow> Some (Inr (c, external oldBlock))))"

section \<open>The collaborators, as the specification describes them\<close>

text \<open>
  Modelled from the spec: the count behind both quorum predicates, whose code is not at
  hand: how many members of a slice, each counted once, are in a list of nodes.
\<close>

definition inSlice :: "QuorumSlice \<Rightarrow> string list \<Rightarrow> int" where
  "inSlice qs nodes = int (length (filter (\<lambda>m. m \<in> set nodes) (remdups (Members qs))))"

text \<open>
  Modelled from the spec: \<open>MeetsQuorum\<close>, whose code is not at hand. A list of nodes is a
  quorum iff it contains the node itself and every node in it has declared a slice of which
  at least \<open>Threshold\<close> members are in the list.
\<close>

definition spec_MeetsQuorum :: "string \<Rightarrow> (string \<Rightarrow> QuorumSlice option) \<Rightarrow> string list \<Rightarrow> bool" where
  "spec_MeetsQuorum self slice_of nodes =
     (self \<in> set nodes
      \<and> list_all (\<lambda>v. case slice_of v of None \<Rightarrow> False | Some qs \<Rightarrow> Threshold qs \<le> inSlice qs nodes) nodes)"

text \<open>
  Modelled from the spec: \<open>BlockedBy\<close>, whose code is not at hand. A list of nodes blocks a
  slice iff more than (members - threshold) of the members are in the list.
\<close>

definition spec_BlockedBy :: "QuorumSlice \<Rightarrow> string list \<Rightarrow> bool" where
  "spec_BlockedBy qs nodes =
     (inSlice qs nodes > int (length (remdups (Members qs))) - Threshold qs)"

text \<open>
  Modelled from the spec: the predicates of a ballot message, whose code is not at hand.
  A Prepare sender accepts as prepared what its \<open>p\<close> or \<open>pPrime\<close> covers, votes to prepare
  what its \<open>b\<close> covers and votes to commit its value in the non-empty range \<open>[Cn, Hn]\<close>; a
  Confirm sender accepts as prepared every compatible ballot up to \<open>Hn\<close> and accepts as
  committed its value in \<open>[Cn, Hn]\<close>; an Externalize sender has accepted all prepared for
  its value and accepts it as committed in \<open>[Cn, Hn]\<close>. A sender could ever vote for
  \<open>(n, x)\<close> unless its counter has passed \<open>n\<close> on an incompatible value.
\<close>

fun spec_AcceptAsPrepared :: "BallotMessage \<Rightarrow> int \<Rightarrow> SlotValue \<Rightarrow> bool" where
  "spec_AcceptAsPrepared (PrepareM m) n x = ((Pn m \<ge> n \<and> Px m = x) \<or> (Ppn m \<ge> n \<and> Ppx m = x))"
| "spec_AcceptAsPrepared (ConfirmM m) n x = (cm_X m = x \<and> n \<le> cm_Hn m)"
| "spec_AcceptAsPrepared (ExternalizeM m) n x = (em_X m = x)"

fun spec_VoteToPrepare :: "BallotMessage \<Rightarrow> int \<Rightarrow> SlotValue \<Rightarrow> bool" where
  "spec_VoteToPrepare (PrepareM m) n x = (Bn m \<ge> n \<and> Bx m = x)"
| "spec_VoteToPrepare (ConfirmM m) n x = (cm_X m = x)"
| "spec_VoteToPrepare (ExternalizeM m) n x = (em_X m = x)"

fun spec_AcceptAsCommitted :: "BallotMessage \<Rightarrow> int \<Rightarrow> SlotValue \<Rightarrow> bool" where
  "spec_AcceptAsCommitted (PrepareM m) n x = False"
| "spec_AcceptAsCommitted (ConfirmM m) n x = (cm_X m = x \<and> cm_Cn m \<le> n \<and> n \<le> cm_Hn m)"
| "spec_AcceptAsCommitted (ExternalizeM m) n x = (em_X m = x \<and> em_Cn m \<le> n \<and> n \<le> em_Hn m)"

fun spec_VoteToCommit :: "BallotMessage \<Rightarrow> int \<Rightarrow> SlotValue \<Rightarrow> bool" where
  "spec_VoteToCommit (PrepareM m) n x = (pm_Cn m \<noteq> 0 \<and> pm_Cn m \<le> n \<and> n \<le> pm_Hn m \<and> Bx m = x)"
| "spec_VoteToCommit (ConfirmM m) n x = (cm_X m = x \<and> cm_Cn m \<le> n)"
| "spec_VoteToCommit (ExternalizeM m) n x = (em_X m = x \<and> em_Cn m \<le> n)"

fun spec_CouldEverVoteFor :: "BallotMessage \<Rightarrow> int \<Rightarrow> SlotValue \<Rightarrow> bool" where
  "spec_CouldEverVoteFor (PrepareM m) n x = (\<not> (Bn m > n \<and> Bx m \<noteq> x))"
| "spec_CouldEverVoteFor (ConfirmM m) n x = (cm_X m = x)"
| "spec_CouldEverVoteFor (ExternalizeM m) n x = (em_X m = x)"

text \<open>
  Modelled from the spec: the order of ballot messages, whose code is not at hand, is
  lexicographic on (phase, b, p, pPrime, cn, hn), a ballot by its counter and then its
  value. \<open>msg_key\<close> lists these fields as pairs of a number and a value (a phase by its
  number, a field that a message kind does not have as \<open>0\<close> or the empty value),
  \<open>keyLess\<close> compares two such pairs and \<open>lexCompare\<close> two lists of them.
\<close>

definition keyLess :: "int \<times> SlotValue \<Rightarrow> int \<times> SlotValue \<Rightarrow> bool" where
  "keyLess a b = (fst a < fst b \<or> (fst a = fst b \<and> snd a < snd b))"

fun lexCompare :: "(int \<times> SlotValue) list \<Rightarrow> (int \<times> SlotValue) list \<Rightarrow> int" where
  "lexCompare (a # as) (b # bs) =
     (if keyLess a b then - 1 else if keyLess b a then 1 else lexCompare as bs)"
| "lexCompare _ _ = 0"

fun msg_key :: "BallotMessage \<Rightarrow> (int \<times> SlotValue) list" where
  "msg_key (PrepareM m) =
     [(0, []), (Bn m, Bx m), (Pn m, Px m), (Ppn m, Ppx m), (pm_Cn m, []), (pm_Hn m, [])]"
| "msg_key (ConfirmM m) = [(1, []), (0, cm_X m), (cm_Pn m, []), (0, []), (cm_Cn m, []), (cm_Hn m, [])]"
| "msg_key (ExternalizeM m) = [(2, []), (0, em_X m), (0, []), (0, []), (em_Cn m, []), (em_Hn m, [])]"

text \<open>
  Modelled from the spec: \<open>Compare(old, new)\<close>, whose code is not at hand, answers a
  negative number, zero or a positive number as \<open>old\<close> is below, equal to or above \<open>new\<close>
  in that order.
\<close>

definition spec_Compare :: "BallotMessage \<Rightarrow> BallotMessage \<Rightarrow> int" where
  "spec_Compare old new = lexCompare (msg_key old) (msg_key new)"

text \<open>
  Modelled from the spec: \<open>gtecompat(a, b)\<close> and \<open>gteincompat(a, b)\<close>, whose code is not at
  hand: the ballot \<open>a\<close> is not nil, its counter is at least that of \<open>b\<close>, and its value is
  equal to, respectively different from, that of \<open>b\<close>.
\<close>

definition spec_gtecompat :: "Ballot option \<Rightarrow> Ballot \<Rightarrow> bool" where
  "spec_gtecompat a b = (case a of None \<Rightarrow> False | Some a' \<Rightarrow> bal_n a' \<ge> bal_n b \<and> bal_x a' = bal_x b)"

definition spec_gteincompat :: "Ballot option \<Rightarrow> Ballot \<Rightarrow> bool" where
  "spec_gteincompat a b = (case a of None \<Rightarrow> False | Some a' \<Rightarrow> bal_n a' \<ge> bal_n b \<and> bal_x a' \<noteq> bal_x b)"

text \<open>
  Modelled from the spec: \<open>CombineSlice\<close>, whose code is not at hand, combines values
  deterministically, associatively, commutatively and idempotently; here the greatest
  value of the list stands for the composite.
\<close>

definition spec_CombineSlice :: "SlotValue list \<Rightarrow> SlotValue" where
  "spec_CombineSlice vs = fold max vs []"

text \<open>
  Modelled from the spec: the collaborators above, put together. The concrete runs below
  use it; the general statements hold for every \<open>E\<close>.
\<close>

definition spec_env :: "env" where
  "spec_env =
     \<lparr>MeetsQuorum = spec_MeetsQuorum, BlockedBy = spec_BlockedBy,
      AcceptAsPrepared = spec_AcceptAsPrepared, VoteToPrepare = spec_VoteToPrepare,
      AcceptAsCommitted = spec_AcceptAsCommitted, VoteToCommit = spec_VoteToCommit,
      CouldEverVoteFor = spec_CouldEverVoteFor, Compare = spec_Compare,
      gtecompat = spec_gtecompat, gteincompat = spec_gteincompat,
      CombineSlice = spec_CombineSlice\<rparr>"


section \<open>Runs of the ballot state and what they keep\<close>

text \<open>
  One step of a ballot state is one call of an operation that returns; a state is reachable
  when a finite run of such calls leads to it from a new state.
\<close>

inductive ballot_step :: "env \<Rightarrow> BallotState \<Rightarrow> BallotState \<Rightarrow> bool" for E :: env where
  step_AcceptAsPrepared: "MaybeAcceptAsPrepared E n x s = Inr (r, s') \<Longrightarrow> ballot_step E s s'"
| step_ConfirmAsPrepared: "MaybeConfirmAsPrepared E n x s = Inr (r, s') \<Longrightarrow> ballot_step E s s'"
| step_AcceptAsCommitted: "MaybeAcceptAsCommitted E n x s = (r, s') \<Longrightarrow> ballot_step E s s'"
| step_ConfirmAsCommitted: "MaybeConfirmAsCommitted E n x s = (r, s') \<Longrightarrow> ballot_step E s s'"
| step_NextBallot: "MaybeNextBallot E s = (r, s') \<Longrightarrow> ballot_step E s s'"
| step_InitializeValue: "MaybeInitializeValue v s = (r, s') \<Longrightarrow> ballot_step E s s'"
| step_UpdateValue: "MaybeUpdateValue E ns s = Inr (r, s') \<Longrightarrow> ballot_step E s s'"
| step_Handle: "BallotState_Handle E fuel node message s = Some (Inr s') \<Longrightarrow> ballot_step E s s'"
| step_AssertValid: "BallotState_AssertValid s = Inr s' \<Longrightarrow> ballot_step E s s'"

definition reachable :: "env \<Rightarrow> BallotState \<Rightarrow> bool" where
  "reachable E s = (\<exists>publicKey qs. (ballot_step E)\<^sup>*\<^sup>* (NewBallotState publicKey qs) s)"

text \<open>
  A property of ballot states that every basic operation keeps is kept by \<open>Investigate\<close>,
  by the loop of \<open>Handle\<close> and so by every run. \<open>core\<close> collects the fields that the
  properties below read; the operations that only move \<open>b\<close>, \<open>z\<close> or \<open>last\<close> leave it as it is.
\<close>

definition ops_preserve :: "env \<Rightarrow> (BallotState \<Rightarrow> bool) \<Rightarrow> bool" where
  "ops_preserve E P =
     ((\<forall>n x s r s'. P s \<longrightarrow> MaybeAcceptAsPrepared E n x s = Inr (r, s') \<longrightarrow> P s')
      \<and> (\<forall>n x s r s'. P s \<longrightarrow> MaybeConfirmAsPrepared E n x s = Inr (r, s') \<longrightarrow> P s')
      \<and> (\<forall>n x s. P s \<longrightarrow> P (snd (MaybeAcceptAsCommitted E n x s)))
      \<and> (\<forall>n x s. P s \<longrightarrow> P (snd (MaybeConfirmAsCommitted E n x s)))
      \<and> (\<forall>s. P s \<longrightarrow> P (snd (MaybeNextBallot E s)))
      \<and> (\<forall>v s. P s \<longrightarrow> P (snd (MaybeInitializeValue v s)))
      \<and> (\<forall>ns s r s'. P s \<longrightarrow> MaybeUpdateValue E ns s = Inr (r, s') \<longrightarrow> P s')
      \<and> (\<forall>s s'. P s \<longrightarrow> BallotState_AssertValid s = Inr s' \<longrightarrow> P s'))"

definition core ::
  "BallotState \<Rightarrow> Phase \<times> int \<times> int \<times> Ballot option \<times> Ballot option \<times> (string \<times> BallotMessage) list" where
  "core s = (bs_phase s, bs_cn s, bs_hn s, bs_p s, bs_pPrime s, bs_M s)"

text \<open>
  The three properties: the range is in order, with \<open>hn\<close> not negative in the Prepare
  phase; relative to a starting state \<open>s0\<close>, \<open>hn\<close> has not fallen if the state is still
  in Prepare or if \<open>s0\<close> was already in Externalize; neither \<open>p\<close> nor \<open>pPrime\<close> is a
  ballot with counter 0.
\<close>

definition ballot_inv :: "BallotState \<Rightarrow> bool" where
  "ballot_inv s = (bs_cn s \<le> bs_hn s \<and> (bs_phase s = Prepare \<longrightarrow> 0 \<le> bs_hn s))"

definition hn_kept :: "BallotState \<Rightarrow> BallotState \<Rightarrow> bool" where
  "hn_kept s0 s =
     ((bs_phase s = Prepare \<longrightarrow> bs_phase s0 = Prepare \<and> bs_hn s0 \<le> bs_hn s)
      \<and> (bs_phase s0 = Externalize \<longrightarrow> bs_phase s = Externalize \<and> bs_hn s0 \<le> bs_hn s))"



section \<open>Concrete nodes, messages and states\<close>

text \<open>
  The node \<open>foo\<close> alone (a slice of itself, threshold one), and the node \<open>foo\<close> that
  listens to itself and \<open>bar\<close> with threshold two, so that \<open>bar\<close> alone blocks it and the
  two together are a quorum.
\<close>

definition solo :: QuorumSlice where
  "solo = \<lparr>Members = [''foo''], Threshold = 1\<rparr>"

definition duo :: QuorumSlice where
  "duo = \<lparr>Members = [''foo'', ''bar''], Threshold = 2\<rparr>"

text \<open>A state whose \<open>pPrime\<close> is the ballot \<open>(5, b)\<close> below its \<open>p\<close>, the ballot \<open>(7, a)\<close>.\<close>

definition st_stale :: BallotState where
  "st_stale = (NewBallotState ''foo'' solo)
     \<lparr>bs_b := Some \<lparr>bal_n = 7, bal_x = ''a''\<rparr>,
      bs_p := Some \<lparr>bal_n = 7, bal_x = ''a''\<rparr>,
      bs_pPrime := Some \<lparr>bal_n = 5, bal_x = ''b''\<rparr>\<rparr>"

text \<open>
  A state that votes to commit \<open>(1, a)\<close> although it has accepted \<open>(2, c)\<close> as prepared.
\<close>

definition st_contra :: BallotState where
  "st_contra = (NewBallotState ''foo'' solo)
     \<lparr>bs_b := Some \<lparr>bal_n = 1, bal_x = ''a''\<rparr>,
      bs_p := Some \<lparr>bal_n = 2, bal_x = ''c''\<rparr>,
      bs_cn := 1, bs_hn := 1, bs_z := Some ''a''\<rparr>"

text \<open>
  The node \<open>foo\<close> of the pair, seeded with the value \<open>v\<close>, and three messages of \<open>bar\<close>:
  a Prepare message that votes to commit \<open>v\<close> in \<open>[1, 5]\<close>, a Prepare message that does
  not vote to commit yet, and a Confirm message that accepts \<open>v\<close> as committed in \<open>[1, 3]\<close>.
\<close>

definition hn_start :: BallotState where
  "hn_start = snd (MaybeInitializeValue ''v'' (NewBallotState ''foo'' duo))"

definition msg_votes :: BallotMessage where
  "msg_votes = PrepareM \<lparr>pm_I = 1, Bn = 5, Bx = ''v'', Pn = 5, Px = ''v'', Ppn = 0, Ppx = [],
                          pm_Cn = 1, pm_Hn = 5, pm_D = duo\<rparr>"

definition msg_prepares :: BallotMessage where
  "msg_prepares = PrepareM \<lparr>pm_I = 1, Bn = 5, Bx = ''v'', Pn = 5, Px = ''v'', Ppn = 0, Ppx = [],
                             pm_Cn = 0, pm_Hn = 0, pm_D = duo\<rparr>"

definition msg_confirms :: BallotMessage where
  "msg_confirms = ConfirmM \<lparr>cm_I = 1, cm_X = ''v'', cm_Pn = 5, cm_Cn = 1, cm_Hn = 3, cm_D = duo\<rparr>"

text \<open>
  The states of \<open>foo\<close>: \<open>hn_mid\<close> after the first message, \<open>hn_end\<close> after the first and
  then the third, \<open>st_prepared\<close> after the second alone.
\<close>

definition hn_mid :: BallotState where
  "hn_mid =
     \<lparr>bs_phase = Confirm, bs_b = Some \<lparr>bal_n = 1, bal_x = ''v''\<rparr>, bs_last = None,
      bs_p = Some \<lparr>bal_n = 5, bal_x = ''v''\<rparr>, bs_pPrime = None, bs_cn = 1, bs_hn = 5,
      bs_z = Some ''v'', bs_M = [(''bar'', msg_votes)], bs_publicKey = ''foo'', bs_D = duo,
      bs_received = 1\<rparr>"

definition hn_end :: BallotState where
  "hn_end =
     \<lparr>bs_phase = Externalize, bs_b = Some \<lparr>bal_n = 1, bal_x = ''v''\<rparr>, bs_last = None,
      bs_p = Some \<lparr>bal_n = 5, bal_x = ''v''\<rparr>, bs_pPrime = None, bs_cn = 3, bs_hn = 3,
      bs_z = Some ''v'', bs_M = [(''bar'', msg_confirms)], bs_publicKey = ''foo'', bs_D = duo,
      bs_received = 2\<rparr>"

definition st_prepared :: BallotState where
  "st_prepared =
     \<lparr>bs_phase = Prepare, bs_b = Some \<lparr>bal_n = 1, bal_x = ''v''\<rparr>, bs_last = None,
      bs_p = Some \<lparr>bal_n = 5, bal_x = ''v''\<rparr>, bs_pPrime = None, bs_cn = 1, bs_hn = 5,
      bs_z = Some ''v'', bs_M = [(''bar'', msg_prepares)], bs_publicKey = ''foo'', bs_D = duo,
      bs_received = 1\<rparr>"

text \<open>
  The state \<open>st_prepared\<close> after \<open>bar\<close> has sent a Confirm message that accepts \<open>v\<close> as
  committed in \<open>[1, 7]\<close>, before that message is investigated.
\<close>

definition msg_confirms_high :: BallotMessage where
  "msg_confirms_high =
     ConfirmM \<lparr>cm_I = 1, cm_X = ''v'', cm_Pn = 5, cm_Cn = 1, cm_Hn = 7, cm_D = duo\<rparr>"

definition st_voting :: BallotState where
  "st_voting = st_prepared\<lparr>bs_M := [(''bar'', msg_confirms_high)]\<rparr>"



definition msg_first :: NominationMessage where
  "msg_first = \<lparr>nm_I = 1, Nom = [''a''], Acc = [], nm_D = duo\<rparr>"

definition msg_replaced :: NominationMessage where
  "msg_replaced = \<lparr>nm_I = 1, Nom = [''z'', ''b''], Acc = [], nm_D = duo\<rparr>"

definition ns_first :: NominationState where
  "ns_first =
     \<lparr>ns_X = [''a''], ns_Y = [''a''], ns_Z = [], ns_N = [(''bar'', msg_first)],
      ns_publicKey = ''foo'', ns_D = duo, ns_received = 1\<rparr>"

definition ns_second :: NominationState where
  "ns_second =
     \<lparr>ns_X = [''a'', ''b''], ns_Y = [''a'', ''b''], ns_Z = [], ns_N = [(''bar'', msg_replaced)],
      ns_publicKey = ''foo'', ns_D = duo, ns_received = 2\<rparr>"

text \<open>
  A value store that can finalize everything and keeps the list of finalized values; the
  chain of \<open>foo\<close> whose block for slot 1 has externalized \<open>v\<close>, and the chain after it has
  advanced to slot 2.
\<close>

definition test_store :: "SlotValue list ValueStore" where
  "test_store = \<lparr>CanFinalize = (\<lambda>vs v. True), Finalize = (\<lambda>vs v. Inr (vs @ [v]))\<rparr>"

definition blk_done :: Block where
  "blk_done =
     \<lparr>blk_slot = 1, nState = NewNominationState ''foo'' duo, bState = hn_end,
      external = Some \<lparr>em_I = 1, em_X = ''v'', em_Cn = 3, em_Hn = 3, em_D = duo\<rparr>,
      blk_D = duo, blk_publicKey = ''foo''\<rparr>"

definition ch_done :: "SlotValue list Chain" where
  "ch_done = (NewEmptyChain ''foo'' duo [])\<lparr>current := blk_done\<rparr>"

definition ch_next :: "SlotValue list Chain" where
  "ch_next =
     \<lparr>current = NewBlock ''foo'' duo 2, history = [1 \<mapsto> blk_done], ch_D = duo,
      ch_publicKey = ''foo'', ch_values = [''v'']\<rparr>"


section \<open>Shapes of the basic operations\<close>

declare giveUpVotes.simps [simp del]

lemma giveUpVotes_shape:
  "giveUpVotes s = Inr s' \<Longrightarrow>
     \<exists>c. s' = s\<lparr>bs_cn := c\<rparr> \<and> (c = bs_cn s \<or> c = 0 \<or> c \<le> bs_hn s)"
proof (induction s arbitrary: s' rule: giveUpVotes.induct)
  case (1 s)
  show ?case
  proof (cases "bs_cn s = 0")
    case True
    with "1.prems" have "s' = s" by (simp add: giveUpVotes.simps)
    then show ?thesis by (intro exI [of _ "bs_cn s"]) simp
  next
    case False
    from "1.prems" False obtain bb where bb: "bs_b s = Some bb"
      by (cases "bs_b s") (simp_all add: giveUpVotes.simps)
    from "1.prems" False bb obtain aborted where ab: "AcceptedAbort s (bs_cn s) (bal_x bb) = Inr aborted"
      by (cases "AcceptedAbort s (bs_cn s) (bal_x bb)") (simp_all add: giveUpVotes.simps)
    show ?thesis
    proof (cases aborted)
      case True
      let ?t = "s\<lparr>bs_cn := (if bs_cn s + 1 > bs_hn s then 0 else bs_cn s + 1)\<rparr>"
      from "1.prems" False bb ab True have "giveUpVotes ?t = Inr s'"
        by (subst (asm) giveUpVotes.simps) simp
      from "1.IH" [OF False bb ab True this]
      obtain c where "s' = ?t\<lparr>bs_cn := c\<rparr>" and "c = bs_cn ?t \<or> c = 0 \<or> c \<le> bs_hn ?t"
        by blast
      then show ?thesis
        by (intro exI [of _ c]) (auto split: if_splits)
    next
      case False
      with "1.prems" \<open>bs_cn s \<noteq> 0\<close> bb ab have "s' = s"
        by (subst (asm) giveUpVotes.simps) simp
      then show ?thesis by (intro exI [of _ "bs_cn s"]) simp
    qed
  qed
qed


lemma abortBallot_shape:
  "abortBallot n x s = s \<or> abortBallot n x s = s\<lparr>bs_cn := 0, bs_b := Some \<lparr>bal_n = n, bal_x = x\<rparr>\<rparr>"
  by (simp add: abortBallot_def)

lemma updatePrepared_shape:
  "updatePrepared n x s = Inr s' \<Longrightarrow>
     s' = s\<lparr>bs_p := Some \<lparr>bal_n = n, bal_x = x\<rparr>\<rparr>
     \<or> s' = s\<lparr>bs_pPrime := bs_p s, bs_p := Some \<lparr>bal_n = n, bal_x = x\<rparr>\<rparr>
     \<or> s' = s\<lparr>bs_pPrime := Some \<lparr>bal_n = n, bal_x = x\<rparr>\<rparr>"
  by (auto simp add: updatePrepared_def Let_def split: option.splits if_splits)

lemma MaybeAcceptAsPrepared_cases:
  assumes "MaybeAcceptAsPrepared E n x s = Inr (r, s')"
  shows "(\<not> r \<and> s' = s)
         \<or> (r \<and> bs_phase s = Prepare \<and> n \<noteq> 0
             \<and> (\<exists>s2. updatePrepared n x (abortBallot n x s) = Inr s2
                      \<and> (s' = s2 \<or> giveUpVotes s2 = Inr s')))"
  using assms
  by (simp add: MaybeAcceptAsPrepared_def split: if_splits sum.splits option.splits)

lemma MaybeAcceptAsPrepared_shape:
  assumes "MaybeAcceptAsPrepared E n x s = Inr (r, s')"
  shows "bs_phase s' = bs_phase s \<and> bs_hn s' = bs_hn s \<and> bs_M s' = bs_M s
         \<and> (bs_cn s' = bs_cn s \<or> bs_cn s' = 0 \<or> bs_cn s' \<le> bs_hn s)
         \<and> (s' = s \<or> (bs_phase s = Prepare \<and> n \<noteq> 0))
         \<and> (bs_p s' = bs_p s \<or> bs_p s' = Some \<lparr>bal_n = n, bal_x = x\<rparr>)
         \<and> (bs_pPrime s' = bs_pPrime s \<or> bs_pPrime s' = bs_p s
             \<or> bs_pPrime s' = Some \<lparr>bal_n = n, bal_x = x\<rparr>)"
proof -
  from MaybeAcceptAsPrepared_cases [OF assms]
  consider "s' = s"
    | s2 where "bs_phase s = Prepare" "n \<noteq> 0" "updatePrepared n x (abortBallot n x s) = Inr s2"
        "s' = s2 \<or> giveUpVotes s2 = Inr s'"
    by blast
  then show ?thesis
  proof cases
    case 1
    then show ?thesis by simp
  next
    case 2
    have "\<exists>c. s' = s2\<lparr>bs_cn := c\<rparr> \<and> (c = bs_cn s2 \<or> c = 0 \<or> c \<le> bs_hn s2)"
    proof (cases "s' = s2")
      case True
      then show ?thesis by (intro exI [of _ "bs_cn s2"]) simp
    next
      case False
      with 2(4) show ?thesis by (simp add: giveUpVotes_shape)
    qed
    then obtain c where c: "s' = s2\<lparr>bs_cn := c\<rparr>" "c = bs_cn s2 \<or> c = 0 \<or> c \<le> bs_hn s2"
      by blast
    from updatePrepared_shape [OF 2(3)] abortBallot_shape [of n x s] c 2(1,2)
    show ?thesis by auto
  qed
qed


lemma MaybeConfirmAsPrepared_shape:
  assumes "MaybeConfirmAsPrepared E n x s = Inr (r, s')"
  shows "bs_phase s' = bs_phase s \<and> bs_p s' = bs_p s \<and> bs_pPrime s' = bs_pPrime s
         \<and> bs_M s' = bs_M s
         \<and> (s' = s
             \<or> (bs_phase s = Prepare \<and> bs_hn s < n \<and> bs_hn s' = n
                 \<and> (bs_cn s' = bs_cn s \<or> bs_cn s' \<le> n)))"
  using assms
  by (auto simp add: MaybeConfirmAsPrepared_def Let_def split: if_splits)

lemma MaybeAcceptAsCommitted_shape:
  assumes "MaybeAcceptAsCommitted E n x s = (r, s')"
  shows "bs_p s' = bs_p s \<and> bs_pPrime s' = bs_pPrime s \<and> bs_M s' = bs_M s
         \<and> (s' = s
             \<or> (bs_phase s \<noteq> Externalize \<and> bs_phase s' = Confirm
                 \<and> ((bs_cn s' = n \<and> bs_hn s' = n)
                     \<or> (bs_cn s' = min (bs_cn s) n \<and> bs_hn s' = max (bs_hn s) n))))"
  using assms
  by (auto simp add: MaybeAcceptAsCommitted_def Let_def split: if_splits option.splits)

lemma MaybeConfirmAsCommitted_shape:
  assumes "MaybeConfirmAsCommitted E n x s = (r, s')"
  shows "bs_p s' = bs_p s \<and> bs_pPrime s' = bs_pPrime s \<and> bs_M s' = bs_M s
         \<and> (s' = s
             \<or> (bs_phase s = Confirm \<and> bs_phase s' = Externalize \<and> bs_cn s' = n \<and> bs_hn s' = n)
             \<or> (bs_phase s = Externalize \<and> bs_phase s' = Externalize
                 \<and> bs_cn s' = min (bs_cn s) n \<and> bs_hn s' = max (bs_hn s) n))"
  using assms
  by (cases "bs_phase s")
     (auto simp add: MaybeConfirmAsCommitted_def Let_def split: if_splits option.splits)

lemma MaybeNextBallot_core:
  "core (snd (MaybeNextBallot E s)) = core s"
  by (simp add: MaybeNextBallot_def core_def Let_def split: option.splits)

lemma MaybeInitializeValue_core:
  "core (snd (MaybeInitializeValue v s)) = core s"
  by (simp add: MaybeInitializeValue_def core_def Let_def)

lemma MaybeUpdateValue_core:
  assumes "MaybeUpdateValue E ns s = Inr (r, s')"
  shows "core s' = core s"
  using assms
  by (auto simp add: MaybeUpdateValue_def core_def Let_def split: if_splits sum.splits option.splits)

lemma BallotState_AssertValid_core:
  assumes "BallotState_AssertValid s = Inr s'"
  shows "core s' = core s"
  using assms
  by (auto simp add: BallotState_AssertValid_def core_def split: if_splits option.splits)


lemma ops_preserve_AcceptAsPrepared:
  "ops_preserve E P \<Longrightarrow> P s \<Longrightarrow> MaybeAcceptAsPrepared E n x s = Inr (r, s') \<Longrightarrow> P s'"
  unfolding ops_preserve_def by (elim conjE allE [of _ n]) (erule allE [of _ x], blast)

lemma ops_preserve_ConfirmAsPrepared:
  "ops_preserve E P \<Longrightarrow> P s \<Longrightarrow> MaybeConfirmAsPrepared E n x s = Inr (r, s') \<Longrightarrow> P s'"
  unfolding ops_preserve_def by (elim conjE) fast

lemma ops_preserve_AcceptAsCommitted:
  "ops_preserve E P \<Longrightarrow> P s \<Longrightarrow> P (snd (MaybeAcceptAsCommitted E n x s))"
  unfolding ops_preserve_def by (elim conjE) fast

lemma ops_preserve_ConfirmAsCommitted:
  "ops_preserve E P \<Longrightarrow> P s \<Longrightarrow> P (snd (MaybeConfirmAsCommitted E n x s))"
  unfolding ops_preserve_def by (elim conjE) fast

lemma ops_preserve_NextBallot:
  "ops_preserve E P \<Longrightarrow> P s \<Longrightarrow> P (snd (MaybeNextBallot E s))"
  unfolding ops_preserve_def by (elim conjE) fast

lemma ops_preserve_InitializeValue:
  "ops_preserve E P \<Longrightarrow> P s \<Longrightarrow> P (snd (MaybeInitializeValue v s))"
  unfolding ops_preserve_def by (elim conjE) fast

lemma ops_preserve_UpdateValue:
  "ops_preserve E P \<Longrightarrow> P s \<Longrightarrow> MaybeUpdateValue E ns s = Inr (r, s') \<Longrightarrow> P s'"
  unfolding ops_preserve_def by (elim conjE) fast

lemma ops_preserve_AssertValid:
  "ops_preserve E P \<Longrightarrow> P s \<Longrightarrow> BallotState_AssertValid s = Inr s' \<Longrightarrow> P s'"
  unfolding ops_preserve_def by (elim conjE) fast


text \<open>Composite operations keep whatever the basic operations keep.\<close>

lemma foldE_preserves:
  assumes "\<And>a s s'. P s \<Longrightarrow> f a s = Inr s' \<Longrightarrow> P s'"
  shows "P s \<Longrightarrow> foldE f as s = Inr s' \<Longrightarrow> P s'"
proof (induction as arbitrary: s)
  case Nil
  then show ?case by simp
next
  case (Cons a as)
  from Cons.prems(2) obtain s1 where s1: "f a s = Inr s1" "foldE f as s1 = Inr s'"
    by (cases "f a s") simp_all
  from assms [OF Cons.prems(1) s1(1)] have "P s1" .
  from Cons.IH [OF this s1(2)] show ?case .
qed

lemma Investigate_preserves:
  assumes "ops_preserve E P" and "P s" and "Investigate E n x s = Inr s'"
  shows "P s'"
proof -
  from assms(3) obtain r1 s1 where 1: "MaybeAcceptAsPrepared E n x s = Inr (r1, s1)"
    by (cases "MaybeAcceptAsPrepared E n x s") (auto simp add: Investigate_def)
  from assms(3) 1 obtain r2 s2 where 2: "MaybeConfirmAsPrepared E n x s1 = Inr (r2, s2)"
    by (cases "MaybeConfirmAsPrepared E n x s1") (auto simp add: Investigate_def)
  from assms(3) 1 2
  have 3: "s' = snd (MaybeConfirmAsCommitted E n x (snd (MaybeAcceptAsCommitted E n x s2)))"
    by (simp add: Investigate_def)
  have "P s1" by (rule ops_preserve_AcceptAsPrepared [OF assms(1,2) 1])
  then have "P s2" by (rule ops_preserve_ConfirmAsPrepared [OF assms(1) _ 2])
  then have "P (snd (MaybeAcceptAsCommitted E n x s2))"
    by (rule ops_preserve_AcceptAsCommitted [OF assms(1)])
  then show ?thesis unfolding 3 by (rule ops_preserve_ConfirmAsCommitted [OF assms(1)])
qed

lemma investigateMessage_preserves:
  assumes "ops_preserve E P" and "P s" and "investigateMessage E message s = Inr s'"
  shows "P s'"
proof (cases message)
  case (PrepareM m)
  from assms(3) obtain s1 where 1: "Investigate E (Bn m) (Bx m) s = Inr s1"
    unfolding PrepareM by (cases "Investigate E (Bn m) (Bx m) s") simp_all
  from assms(3) 1 obtain s2 where 2: "Investigate E (Pn m) (Px m) s1 = Inr s2"
    unfolding PrepareM by (cases "Investigate E (Pn m) (Px m) s1") simp_all
  from assms(3) 1 2 have 3: "Investigate E (Ppn m) (Ppx m) s2 = Inr s'"
    unfolding PrepareM by simp
  have "P s1" by (rule Investigate_preserves [OF assms(1,2) 1])
  then have "P s2" by (rule Investigate_preserves [OF assms(1) _ 2])
  then show ?thesis by (rule Investigate_preserves [OF assms(1) _ 3])
next
  case (ConfirmM m)
  with assms(3) have "Investigate E (cm_Hn m) (cm_X m) s = Inr s'" by simp
  then show ?thesis by (rule Investigate_preserves [OF assms(1,2)])
next
  case (ExternalizeM m)
  with assms(3) have run: "foldE (\<lambda>i. Investigate E i (em_X m)) [em_Cn m .. em_Hn m] s = Inr s'"
    by simp
  have step: "\<And>i t t'. P t \<Longrightarrow> Investigate E i (em_X m) t = Inr t' \<Longrightarrow> P t'"
    by (rule Investigate_preserves [OF assms(1)])
  show ?thesis
    by (rule foldE_preserves [where f = "\<lambda>i. Investigate E i (em_X m)" and P = P, OF _ assms(2) run])
       (rule step)
qed

lemma HandleLoop_preserves:
  assumes "ops_preserve E P"
  shows "P s \<Longrightarrow> HandleLoop E fuel message s = Some (Inr s') \<Longrightarrow> P s'"
proof (induction fuel arbitrary: s)
  case 0
  then show ?case by simp
next
  case (Suc k)
  from Suc.prems(2) obtain s1 where 1: "investigateMessage E message s = Inr s1"
    by (cases "investigateMessage E message s") simp_all
  have "P s1" by (rule investigateMessage_preserves [OF assms Suc.prems(1) 1])
  then have 2: "P (snd (MaybeNextBallot E s1))" by (rule ops_preserve_NextBallot [OF assms])
  show ?case
  proof (cases "fst (MaybeNextBallot E s1)")
    case True
    with Suc.prems(2) 1 have "HandleLoop E k message (snd (MaybeNextBallot E s1)) = Some (Inr s')"
      by (simp add: case_prod_beta)
    from Suc.IH [OF 2 this] show ?thesis .
  next
    case False
    with Suc.prems(2) 1 have "s' = snd (MaybeNextBallot E s1)"
      by (simp add: case_prod_beta)
    with 2 show ?thesis by simp
  qed
qed

lemma BallotState_Handle_preserves:
  assumes "ops_preserve E P" and "\<And>t r M. P t \<Longrightarrow> P (t\<lparr>bs_received := r, bs_M := M\<rparr>)" and "P s"
    and "BallotState_Handle E fuel node message s = Some (Inr s')"
  shows "P s'"
proof (cases "s' = s")
  case True
  with assms(3) show ?thesis by simp
next
  case False
  let ?t = "s\<lparr>bs_received := bs_received s + 1, bs_M := AList.update node message (bs_M s)\<rparr>"
  from assms(4) False have run: "HandleLoop E fuel message ?t = Some (Inr s')"
    by (simp add: BallotState_Handle_def split: if_splits)
  have "P ?t" by (rule assms(2) [OF assms(3)])
  from HandleLoop_preserves [OF assms(1) this run] show ?thesis .
qed

lemma ballot_step_preserves:
  assumes "ops_preserve E P" and "\<And>t r M. P t \<Longrightarrow> P (t\<lparr>bs_received := r, bs_M := M\<rparr>)"
    and "ballot_step E s s'" and "P s"
  shows "P s'"
  using assms(3)
proof cases
  case (step_AcceptAsPrepared n x r)
  then show ?thesis by (rule ops_preserve_AcceptAsPrepared [OF assms(1,4)])
next
  case (step_ConfirmAsPrepared n x r)
  then show ?thesis by (rule ops_preserve_ConfirmAsPrepared [OF assms(1,4)])
next
  case (step_AcceptAsCommitted n x r)
  then have "s' = snd (MaybeAcceptAsCommitted E n x s)" by simp
  then show ?thesis by (simp add: ops_preserve_AcceptAsCommitted [OF assms(1,4)])
next
  case (step_ConfirmAsCommitted n x r)
  then have "s' = snd (MaybeConfirmAsCommitted E n x s)" by simp
  then show ?thesis by (simp add: ops_preserve_ConfirmAsCommitted [OF assms(1,4)])
next
  case (step_NextBallot r)
  then have "s' = snd (MaybeNextBallot E s)" by simp
  then show ?thesis by (simp add: ops_preserve_NextBallot [OF assms(1,4)])
next
  case (step_InitializeValue v r)
  then have "s' = snd (MaybeInitializeValue v s)" by simp
  then show ?thesis by (simp add: ops_preserve_InitializeValue [OF assms(1,4)])
next
  case (step_UpdateValue ns r)
  then show ?thesis by (rule ops_preserve_UpdateValue [OF assms(1,4)])
next
  case (step_Handle fuel node message)
  show ?thesis
    by (rule BallotState_Handle_preserves [OF assms(1) _ assms(4) step_Handle]) (rule assms(2))
next
  case step_AssertValid
  then show ?thesis by (rule ops_preserve_AssertValid [OF assms(1,4)])
qed

lemma ballot_steps_preserve:
  assumes "ops_preserve E P" and "\<And>t r M. P t \<Longrightarrow> P (t\<lparr>bs_received := r, bs_M := M\<rparr>)"
    and "(ballot_step E)\<^sup>*\<^sup>* s s'" and "P s"
  shows "P s'"
  using assms(3,4)
proof (induction rule: rtranclp_induct)
  case base
  then show ?case .
next
  case (step t u)
  from step.IH [OF step.prems] have "P t" .
  from ballot_step_preserves [OF assms(1,2) step.hyps(2) this] show ?case .
qed

text \<open>What the invariants need of the basic operations.\<close>

lemma core_ops_preserve:
  assumes acc: "\<And>n x s r s'. P s \<Longrightarrow> MaybeAcceptAsPrepared E n x s = Inr (r, s') \<Longrightarrow> P s'"
    and conf: "\<And>n x s r s'. P s \<Longrightarrow> MaybeConfirmAsPrepared E n x s = Inr (r, s') \<Longrightarrow> P s'"
    and accc: "\<And>n x s. P s \<Longrightarrow> P (snd (MaybeAcceptAsCommitted E n x s))"
    and confc: "\<And>n x s. P s \<Longrightarrow> P (snd (MaybeConfirmAsCommitted E n x s))"
    and core: "\<And>s s'. P s \<Longrightarrow> core s' = core s \<Longrightarrow> P s'"
  shows "ops_preserve E P"
  unfolding ops_preserve_def
proof (intro conjI allI impI)
  fix n x s r s' assume "P s" "MaybeAcceptAsPrepared E n x s = Inr (r, s')"
  then show "P s'" by (rule acc)
next
  fix n x s r s' assume "P s" "MaybeConfirmAsPrepared E n x s = Inr (r, s')"
  then show "P s'" by (rule conf)
next
  fix n x s assume "P s"
  then show "P (snd (MaybeAcceptAsCommitted E n x s))" by (rule accc)
next
  fix n x s assume "P s"
  then show "P (snd (MaybeConfirmAsCommitted E n x s))" by (rule confc)
next
  fix s assume "P s"
  then show "P (snd (MaybeNextBallot E s))" by (rule core) (rule MaybeNextBallot_core)
next
  fix v s assume "P s"
  then show "P (snd (MaybeInitializeValue v s))" by (rule core) (rule MaybeInitializeValue_core)
next
  fix ns s r s' assume P: "P s" and run: "MaybeUpdateValue E ns s = Inr (r, s')"
  from P show "P s'" by (rule core) (rule MaybeUpdateValue_core [OF run])
next
  fix s s' assume P: "P s" and run: "BallotState_AssertValid s = Inr s'"
  from P show "P s'" by (rule core) (rule BallotState_AssertValid_core [OF run])
qed

lemma ballot_inv_preserved: "ops_preserve E ballot_inv"
proof (rule core_ops_preserve)
  fix n x s r s' assume "ballot_inv s" "MaybeAcceptAsPrepared E n x s = Inr (r, s')"
  with MaybeAcceptAsPrepared_shape [of E n x s r s'] show "ballot_inv s'"
    by (auto simp add: ballot_inv_def)
next
  fix n x s r s' assume "ballot_inv s" "MaybeConfirmAsPrepared E n x s = Inr (r, s')"
  with MaybeConfirmAsPrepared_shape [of E n x s r s'] show "ballot_inv s'"
    by (auto simp add: ballot_inv_def)
next
  fix n x s assume "ballot_inv s"
  with MaybeAcceptAsCommitted_shape [of E n x s "fst (MaybeAcceptAsCommitted E n x s)"
      "snd (MaybeAcceptAsCommitted E n x s)"]
  show "ballot_inv (snd (MaybeAcceptAsCommitted E n x s))"
    by (auto simp add: ballot_inv_def)
next
  fix n x s assume "ballot_inv s"
  with MaybeConfirmAsCommitted_shape [of E n x s "fst (MaybeConfirmAsCommitted E n x s)"
      "snd (MaybeConfirmAsCommitted E n x s)"]
  show "ballot_inv (snd (MaybeConfirmAsCommitted E n x s))"
    by (auto simp add: ballot_inv_def)
next
  fix s s' assume "ballot_inv s" "core s' = core s"
  then show "ballot_inv s'" by (simp add: ballot_inv_def core_def)
qed

lemma hn_kept_preserved: "ops_preserve E (hn_kept s0)"
proof (rule core_ops_preserve)
  fix n x s r s' assume "hn_kept s0 s" "MaybeAcceptAsPrepared E n x s = Inr (r, s')"
  with MaybeAcceptAsPrepared_shape [of E n x s r s'] show "hn_kept s0 s'"
    by (auto simp add: hn_kept_def)
next
  fix n x s r s' assume "hn_kept s0 s" "MaybeConfirmAsPrepared E n x s = Inr (r, s')"
  with MaybeConfirmAsPrepared_shape [of E n x s r s'] show "hn_kept s0 s'"
    by (auto simp add: hn_kept_def)
next
  fix n x s assume "hn_kept s0 s"
  with MaybeAcceptAsCommitted_shape [of E n x s "fst (MaybeAcceptAsCommitted E n x s)"
      "snd (MaybeAcceptAsCommitted E n x s)"]
  show "hn_kept s0 (snd (MaybeAcceptAsCommitted E n x s))"
    by (auto simp add: hn_kept_def)
next
  fix n x s assume "hn_kept s0 s"
  with MaybeConfirmAsCommitted_shape [of E n x s "fst (MaybeConfirmAsCommitted E n x s)"
      "snd (MaybeConfirmAsCommitted E n x s)"]
  show "hn_kept s0 (snd (MaybeConfirmAsCommitted E n x s))"
    by (auto simp add: hn_kept_def)
next
  fix s s' assume "hn_kept s0 s" "core s' = core s"
  then show "hn_kept s0 s'" by (simp add: hn_kept_def core_def)
qed


lemma ballot_inv_store: "ballot_inv t \<Longrightarrow> ballot_inv (t\<lparr>bs_received := r, bs_M := M\<rparr>)"
  by (simp add: ballot_inv_def)

lemma hn_kept_store: "hn_kept s0 t \<Longrightarrow> hn_kept s0 (t\<lparr>bs_received := r, bs_M := M\<rparr>)"
  by (simp add: hn_kept_def)


lemma M_kept: "ops_preserve E (\<lambda>s. bs_M s = M0)"
proof (rule core_ops_preserve)
  fix n x r s' and s :: BallotState
  assume "bs_M s = M0" "MaybeAcceptAsPrepared E n x s = Inr (r, s')"
  with MaybeAcceptAsPrepared_shape [of E n x s r s'] show "bs_M s' = M0" by simp
next
  fix n x r s' and s :: BallotState
  assume "bs_M s = M0" "MaybeConfirmAsPrepared E n x s = Inr (r, s')"
  with MaybeConfirmAsPrepared_shape [of E n x s r s'] show "bs_M s' = M0" by simp
next
  fix n x and s :: BallotState assume "bs_M s = M0"
  with MaybeAcceptAsCommitted_shape [of E n x s "fst (MaybeAcceptAsCommitted E n x s)"
      "snd (MaybeAcceptAsCommitted E n x s)"]
  show "bs_M (snd (MaybeAcceptAsCommitted E n x s)) = M0" by simp
next
  fix n x and s :: BallotState assume "bs_M s = M0"
  with MaybeConfirmAsCommitted_shape [of E n x s "fst (MaybeConfirmAsCommitted E n x s)"
      "snd (MaybeConfirmAsCommitted E n x s)"]
  show "bs_M (snd (MaybeConfirmAsCommitted E n x s)) = M0" by simp
next
  fix s s' :: BallotState assume "bs_M s = M0" "core s' = core s"
  then show "bs_M s' = M0" by (simp add: core_def)
qed

lemma lexCompare_refl: "lexCompare ks ks = 0"
  by (induction ks) (simp_all add: keyLess_def)

lemma spec_Compare_refl: "Compare spec_env message message = 0"
  by (simp add: spec_env_def spec_Compare_def lexCompare_refl)


text \<open>The loops of the nomination state.\<close>

lemma set_drop_nth: "set (drop k xs) = (!) xs ` {k ..< length xs}"
proof (intro set_eqI iffI)
  fix v assume "v \<in> set (drop k xs)"
  then obtain i where "i < length (drop k xs)" "v = drop k xs ! i"
    by (auto simp add: in_set_conv_nth)
  then have "k + i < length xs" "v = xs ! (k + i)" by simp_all
  then show "v \<in> (!) xs ` {k ..< length xs}" by auto
next
  fix v assume "v \<in> (!) xs ` {k ..< length xs}"
  then obtain i where i: "k \<le> i" "i < length xs" "v = xs ! i" by auto
  then have "i - k < length (drop k xs)" "drop k xs ! (i - k) = v" by simp_all
  then show "v \<in> set (drop k xs)" by (metis nth_mem)
qed

lemma fold_nomStep:
  "fold (nomStep nom) idx (t, X) = (t', X') \<Longrightarrow>
     set t' = set t \<union> (!) nom ` set idx \<and> set X' = set X \<union> (!) nom ` set idx"
proof (induction idx arbitrary: t X)
  case Nil
  then show ?case by simp
next
  case (Cons i idx)
  obtain t1 X1 where step: "nomStep nom i (t, X) = (t1, X1)" by (cases "nomStep nom i (t, X)")
  then have 1: "set t1 = insert (nom ! i) (set t)" "set X1 = insert (nom ! i) (set X)"
    by (auto simp add: nomStep_def HasSlotValue_def split: if_splits)
  from Cons.prems step have "fold (nomStep nom) idx (t1, X1) = (t', X')" by simp
  from Cons.IH [OF this] 1 show ?case by auto
qed

lemma fold_accStep:
  "set (fold (accStep acc) idx t) = set t \<union> (!) acc ` set idx"
proof (induction idx arbitrary: t)
  case Nil
  then show ?case by simp
next
  case (Cons i idx)
  have "set (accStep acc i t) = insert (acc ! i) (set t)"
    by (auto simp add: accStep_def HasSlotValue_def)
  with Cons.IH [of "accStep acc i t"] show ?case by auto
qed

lemma MaybeAdvance_shape:
  assumes "MaybeAdvance E v s = Inr (r, s')"
  shows "ns_X s' = ns_X s \<and> ns_N s' = ns_N s
         \<and> (ns_Y s' = ns_Y s \<or> ns_Y s' = ns_Y s @ [v])
         \<and> (ns_Z s' = ns_Z s \<or> ns_Z s' = ns_Z s @ [v])"
  using assms
  by (auto simp add: MaybeAdvance_def Let_def split: if_splits sum.splits)

lemma advanceAll_shape:
  "advanceAll E touched s = Inr s' \<Longrightarrow>
     ns_X s' = ns_X s \<and> ns_N s' = ns_N s
     \<and> set (ns_Y s') \<subseteq> set (ns_Y s) \<union> set touched
     \<and> set (ns_Z s') \<subseteq> set (ns_Z s) \<union> set touched"
proof (induction touched arbitrary: s)
  case Nil
  then show ?case by (simp add: advanceAll_def)
next
  case (Cons v touched)
  from Cons.prems obtain r s1 where 1: "MaybeAdvance E v s = Inr (r, s1)"
    and 2: "advanceAll E touched s1 = Inr s'"
    by (auto simp add: advanceAll_def split: sum.splits)
  from MaybeAdvance_shape [OF 1] Cons.IH [OF 2] show ?case by auto
qed



lemma NominationState_Handle_accepted:
  assumes lens: "oldLens s node = (oldLenNom, oldLenAcc)"
    and nom: "oldLenNom \<le> length (Nom m)" and acc: "oldLenAcc \<le> length (Acc m)"
    and new: "oldLenNom < length (Nom m) \<or> oldLenAcc < length (Acc m)"
    and run: "NominationState_Handle E node m s = Inr s'"
  shows "\<exists>touched X1.
           set touched = set (drop oldLenNom (Nom m)) \<union> set (drop oldLenAcc (Acc m))
           \<and> set X1 = set (ns_X s) \<union> set (drop oldLenNom (Nom m))
           \<and> advanceAll E touched
                (s\<lparr>ns_N := AList.update node m (ns_N s), ns_received := ns_received s + 1,
                   ns_X := X1\<rparr>) = Inr s'"
proof -
  let ?s1 = "s\<lparr>ns_N := AList.update node m (ns_N s), ns_received := ns_received s + 1\<rparr>"
  obtain touched1 X1 where loop1:
    "fold (nomStep (Nom m)) [oldLenNom ..< length (Nom m)] ([], ns_X s) = (touched1, X1)"
    by (cases "fold (nomStep (Nom m)) [oldLenNom ..< length (Nom m)] ([], ns_X s)")
  define touched where "touched = fold (accStep (Acc m)) [oldLenAcc ..< length (Acc m)] touched1"
  from fold_nomStep [OF loop1]
  have t1: "set touched1 = set (drop oldLenNom (Nom m))"
    and X1: "set X1 = set (ns_X s) \<union> set (drop oldLenNom (Nom m))"
    by (simp_all add: set_drop_nth)
  have t: "set touched = set (drop oldLenNom (Nom m)) \<union> set (drop oldLenAcc (Acc m))"
    by (simp add: touched_def fold_accStep t1 set_drop_nth)
  from run lens nom acc new loop1
  have adv: "advanceAll E touched (?s1\<lparr>ns_X := X1\<rparr>) = Inr s'"
    by (auto simp add: NominationState_Handle_def Let_def touched_def)
  with t X1 show ?thesis by blast
qed


section \<open>Evaluating the model on the concrete runs\<close>

lemmas spec_env_simps =
  spec_env_def spec_MeetsQuorum_def spec_BlockedBy_def inSlice_def spec_Compare_def
  spec_gtecompat_def spec_gteincompat_def spec_CombineSlice_def keyLess_def

lemmas ballot_simps =
  NewBallotState_def bs_QuorumSlice_def prepared_votedOrAccepted_def prepared_accepted_def
  AcceptedAbort_def abortBallot_def updatePrepared_def MaybeAcceptAsPrepared_def
  confirm_prepared_accepted_def MaybeConfirmAsPrepared_def committed_votedOrAccepted_def
  committed_accepted_def MaybeAcceptAsCommitted_def confirm_committed_accepted_def
  MaybeConfirmAsCommitted_def MaybeNextBallot_def Investigate_def BallotState_Handle_def
  MaybeInitializeValue_def giveUpVotes.simps Let_def

lemma hn_start_eq:
  "hn_start = (NewBallotState ''foo'' duo)\<lparr>bs_z := Some ''v'', bs_b := Some \<lparr>bal_n = 1, bal_x = ''v''\<rparr>\<rparr>"
  by (simp add: hn_start_def MaybeInitializeValue_def NewBallotState_def)

lemma handle_msg_votes:
  "BallotState_Handle spec_env 1 ''bar'' msg_votes hn_start = Some (Inr hn_mid)"
  by (simp add: hn_start_eq hn_mid_def msg_votes_def duo_def ballot_simps spec_env_simps)

lemma handle_msg_confirms:
  "BallotState_Handle spec_env 1 ''bar'' msg_confirms hn_mid = Some (Inr hn_end)"
  by (simp add: hn_end_def hn_mid_def msg_votes_def msg_confirms_def duo_def ballot_simps
      spec_env_simps)

lemma handle_msg_prepares:
  "BallotState_Handle spec_env 1 ''bar'' msg_prepares hn_start = Some (Inr st_prepared)"
  by (simp add: hn_start_eq st_prepared_def msg_prepares_def duo_def ballot_simps spec_env_simps)

lemma hn_start_step: "ballot_step E (NewBallotState ''foo'' duo) hn_start"
  by (rule step_InitializeValue [of "''v''" _ "fst (MaybeInitializeValue ''v'' (NewBallotState ''foo'' duo))"])
     (simp add: hn_start_def)

lemma hn_end_reachable: "reachable spec_env hn_end"
proof -
  have "ballot_step spec_env hn_start hn_mid"
    by (rule step_Handle [OF handle_msg_votes])
  moreover have "ballot_step spec_env hn_mid hn_end"
    by (rule step_Handle [OF handle_msg_confirms])
  ultimately have "(ballot_step spec_env)\<^sup>*\<^sup>* (NewBallotState ''foo'' duo) hn_end"
    using hn_start_step [of spec_env] by (meson rtranclp.rtrancl_into_rtrancl rtranclp.rtrancl_refl)
  then show ?thesis unfolding reachable_def by blast
qed

lemmas nomination_simps =
  NewNominationState_def HasSlotValue_def AssertNoDupes_def HasNomination_def SetDefault_def
  PredictValue_def ns_QuorumSlice_def nominate_votedOrAccepted_def nominate_accepted_def
  MaybeAdvance_def nomStep_def accStep_def advanceAll_def oldLens_def
  NominationState_Handle_def Let_def


lemma handle_msg_first:
  "NominationState_Handle spec_env ''bar'' msg_first (NewNominationState ''foo'' duo) = Inr ns_first"
  by (simp add: msg_first_def ns_first_def duo_def nomination_simps spec_env_simps)

lemma handle_msg_replaced:
  "NominationState_Handle spec_env ''bar'' msg_replaced ns_first = Inr ns_second"
  by (simp add: msg_first_def msg_replaced_def ns_first_def ns_second_def duo_def nomination_simps
      spec_env_simps upt_rec)

section \<open>The claims\<close>

text \<open>
  C1 (as stated, refuted). The claim says that no operation and no handled message ever
  lowers \<open>hn\<close>. The node \<open>foo\<close>, seeded with \<open>v\<close>, handles the Prepare message of \<open>bar\<close> that
  votes to commit \<open>v\<close> in \<open>[1, 5]\<close> and reaches the Confirm phase with the range \<open>[1, 5]\<close>;
  it then handles the Confirm message of \<open>bar\<close> for \<open>[1, 3]\<close>, and \<open>MaybeConfirmAsCommitted\<close>
  moves it to Externalize with \<open>cn = hn = 3\<close>: \<open>hn\<close> falls from 5 to 3. Of the
  collaborators the run uses only this: \<open>bar\<close> alone blocks \<open>foo\<close> and the two are a
  quorum; a Prepare message with \<open>p = (5, v)\<close> accepts \<open>(5, v)\<close> as prepared and, with
  the range \<open>[1, 5]\<close>, votes to commit it; a Confirm message for \<open>v\<close> with the range
  \<open>[1, 3]\<close> accepts \<open>(3, v)\<close> as committed; a Confirm message is above a Prepare message.
\<close>

theorem hn_lowered_on_externalize:
  "BallotState_Handle spec_env 1 ''bar'' msg_votes hn_start = Some (Inr hn_mid)
   \<and> BallotState_Handle spec_env 1 ''bar'' msg_confirms hn_mid = Some (Inr hn_end)
   \<and> bs_hn hn_mid = 5 \<and> bs_hn hn_end = 3 \<and> bs_hn hn_end < bs_hn hn_mid"
proof (intro conjI)
  show "BallotState_Handle spec_env 1 ''bar'' msg_votes hn_start = Some (Inr hn_mid)"
    by (rule handle_msg_votes)
  show "BallotState_Handle spec_env 1 ''bar'' msg_confirms hn_mid = Some (Inr hn_end)"
    by (rule handle_msg_confirms)
  show "bs_hn hn_mid = 5" by (simp add: hn_mid_def)
  show "bs_hn hn_end = 3" by (simp add: hn_end_def)
  show "bs_hn hn_end < bs_hn hn_mid" by (simp add: hn_mid_def hn_end_def)
qed

text \<open>
  C1 (amended). Over every run of operations and handled messages, \<open>hn\<close> does not decrease
  as long as the run ends in the Prepare phase, and it does not decrease once the run has
  started in the Externalize phase. (The two places that assign \<open>hn := n\<close> without
  comparing are the replacement of the ballot in \<open>MaybeAcceptAsCommitted\<close> and the move from
  Confirm to Externalize in \<open>MaybeConfirmAsCommitted\<close>; neither leaves a state in Prepare
  nor applies in Externalize.)
\<close>

theorem hn_monotone_within_phase:
  assumes "(ballot_step E)\<^sup>*\<^sup>* s s'" and "bs_phase s' = Prepare \<or> bs_phase s = Externalize"
  shows "bs_hn s \<le> bs_hn s'"
proof -
  have init: "hn_kept s s" by (simp add: hn_kept_def)
  have "hn_kept s s'"
    by (rule ballot_steps_preserve [OF hn_kept_preserved hn_kept_store assms(1) init])
  with assms(2) show ?thesis by (auto simp add: hn_kept_def)
qed

theorem hn_monotone_within_phase_witness:
  "(ballot_step spec_env)\<^sup>*\<^sup>* hn_start st_prepared \<and> bs_phase st_prepared = Prepare
   \<and> bs_hn hn_start = 0 \<and> bs_hn st_prepared = 5 \<and> bs_hn hn_start \<le> bs_hn st_prepared"
proof -
  have run: "(ballot_step spec_env)\<^sup>*\<^sup>* hn_start st_prepared"
    by (rule r_into_rtranclp) (rule step_Handle [OF handle_msg_prepares])
  have phase: "bs_phase st_prepared = Prepare" by (simp add: st_prepared_def)
  from hn_monotone_within_phase [OF run disjI1 [OF phase]] run phase show ?thesis
    by (simp add: hn_start_eq st_prepared_def NewBallotState_def)
qed

text \<open>
  C2. When \<open>Chain.Handle\<close> receives from another node a message that is not an Info
  message and whose slot is that of the current block (a slot is never 0), it forwards
  the message to the block. If the block's \<open>Handle\<close> returns, then exactly when the block
  is done and the value store can finalize the externalized value, the chain finalizes
  that value, files the block in the history under its slot and starts a new block for the
  next slot; otherwise it keeps the block. In both cases it answers nil. An abort inside
  the block or inside \<open>Finalize\<close> aborts the chain's \<open>Handle\<close> as well.
\<close>

theorem chain_handle_current_slot:
  assumes "sender \<noteq> ch_publicKey c" and "\<not> isInfo message"
    and "Slot message = blk_slot (current c)" and "blk_slot (current c) \<noteq> 0"
  shows "Chain_Handle V E fuel sender message c =
     (case Block_Handle E fuel sender message (current c) of
        None \<Rightarrow> None
      | Some (Inl e) \<Rightarrow> Some (Inl e)
      | Some (Inr block) \<Rightarrow>
          if Done block \<and> CanFinalize V (ch_values c) (em_X (the (external block)))
          then (case Finalize V (ch_values c) (em_X (the (external block))) of
                  Inl e \<Rightarrow> Some (Inl e)
                | Inr vs \<Rightarrow>
                    Some (Inr (c\<lparr>ch_values := vs,
                                 history := (history c)(blk_slot (current c) \<mapsto> block),
                                 current := NewBlock (ch_publicKey c) (ch_D c)
                                              (blk_slot (current c) + 1)\<rparr>,
                               None)))
          else Some (Inr (c\<lparr>current := block\<rparr>, None)))"
  using assms
  by (auto simp add: Chain_Handle_def Done_def Let_def split: option.splits sum.splits)

theorem chain_handle_current_slot_witness:
  "''bar'' \<noteq> ch_publicKey ch_done \<and> Slot (BallotMsg msg_confirms) = blk_slot (current ch_done)
   \<and> Block_Handle spec_env 1 ''bar'' (BallotMsg msg_confirms) (current ch_done) = Some (Inr blk_done)
   \<and> Done blk_done
   \<and> Chain_Handle test_store spec_env 1 ''bar'' (BallotMsg msg_confirms) ch_done
       = Some (Inr (ch_next, None))"
proof -
  have sender: "''bar'' \<noteq> ch_publicKey ch_done" and info: "\<not> isInfo (BallotMsg msg_confirms)"
    and slot: "Slot (BallotMsg msg_confirms) = blk_slot (current ch_done)"
    and nonzero: "blk_slot (current ch_done) \<noteq> 0"
    by (simp_all add: ch_done_def NewEmptyChain_def blk_done_def msg_confirms_def)
  have block: "Block_Handle spec_env 1 ''bar'' (BallotMsg msg_confirms) (current ch_done)
               = Some (Inr blk_done)"
    by (simp add: ch_done_def blk_done_def Block_Handle_def BallotState_Handle_def hn_end_def
        msg_confirms_def Block_AssertValid_def NominationState_AssertValid_def
        BallotState_AssertValid_def NewNominationState_def AssertNoDupes_def spec_env_simps
        lexCompare_refl)
  have "Done blk_done" by (simp add: Done_def blk_done_def)
  with chain_handle_current_slot [OF sender info slot nonzero, of test_store spec_env 1]
    sender slot block
  show ?thesis
    by (simp add: test_store_def blk_done_def ch_done_def ch_next_def NewEmptyChain_def)
qed

text \<open>
  C3. In every reachable ballot state \<open>cn \<le> hn\<close>. A state is reachable when a run of
  \<open>MaybeAcceptAsPrepared\<close>, \<open>MaybeConfirmAsPrepared\<close>, \<open>MaybeAcceptAsCommitted\<close>,
  \<open>MaybeConfirmAsCommitted\<close>, \<open>MaybeNextBallot\<close>, \<open>MaybeInitializeValue\<close>, \<open>MaybeUpdateValue\<close>,
  \<open>Handle\<close> and \<open>AssertValid\<close>, with any arguments, leads to it from \<open>NewBallotState\<close>. The
  new state has \<open>cn = hn = 0\<close>, and every one of these operations keeps \<open>cn \<le> hn\<close>
  together with \<open>0 \<le> hn\<close> in the Prepare phase (lemma \<open>ballot_inv_preserved\<close>).
\<close>

theorem cn_le_hn_reachable:
  assumes "reachable E s"
  shows "bs_cn s \<le> bs_hn s"
proof -
  from assms obtain publicKey qs where run: "(ballot_step E)\<^sup>*\<^sup>* (NewBallotState publicKey qs) s"
    unfolding reachable_def by blast
  have init: "ballot_inv (NewBallotState publicKey qs)"
    by (simp add: ballot_inv_def NewBallotState_def)
  have "ballot_inv s"
    by (rule ballot_steps_preserve [OF ballot_inv_preserved ballot_inv_store run init])
  then show ?thesis by (simp add: ballot_inv_def)
qed

theorem cn_le_hn_reachable_witness:
  "reachable spec_env hn_end \<and> bs_cn hn_end \<le> bs_hn hn_end"
  using cn_le_hn_reachable [OF hn_end_reachable] hn_end_reachable by simp

text \<open>
  C4. \<open>Handle\<close> is idempotent and discards what is not new. For the nomination state:
  handling a message again after it has been handled leaves the state as it is, and a
  message from a sender whose stored message has lists at least as long (neither \<open>Nom\<close>
  nor \<open>Acc\<close> grew) leaves the state as it is. For the ballot state, given that a message
  compares as not below itself: handling a message again after it has been handled leaves
  the state as it is, and a message that the stored message of its sender is not below
  leaves the state as it is. (For the lexicographic order of the specification a message
  compares equal to itself, lemma \<open>spec_Compare_refl\<close>.)
\<close>

theorem handle_idempotent:
  "(NominationState_Handle E node m s = Inr s' \<longrightarrow> NominationState_Handle E node m s' = Inr s')
   \<and> (map_of (ns_N t) node' = Some old \<and> length (Nom m') \<le> length (Nom old)
        \<and> length (Acc m') \<le> length (Acc old)
        \<longrightarrow> NominationState_Handle E node' m' t = Inr t)
   \<and> (Compare E message message \<ge> 0
        \<and> BallotState_Handle E fuel sender message bs = Some (Inr bs')
        \<longrightarrow> BallotState_Handle E fuel' sender message bs' = Some (Inr bs'))
   \<and> (map_of (bs_M bt) sender' = Some stored \<and> Compare E stored message' \<ge> 0
        \<longrightarrow> BallotState_Handle E fuel'' sender' message' bt = Some (Inr bt))"
proof (intro conjI impI)
  assume run: "NominationState_Handle E node m s = Inr s'"
  obtain ln la where lens: "oldLens s node = (ln, la)" by (cases "oldLens s node")
  show "NominationState_Handle E node m s' = Inr s'"
  proof (cases "ln \<le> length (Nom m) \<and> la \<le> length (Acc m)
                 \<and> (ln < length (Nom m) \<or> la < length (Acc m))")
    case True
    then have "ln \<le> length (Nom m)" "la \<le> length (Acc m)"
      "ln < length (Nom m) \<or> la < length (Acc m)" by simp_all
    from NominationState_Handle_accepted [OF lens this run] obtain touched X1 where
      "advanceAll E touched
         (s\<lparr>ns_N := AList.update node m (ns_N s), ns_received := ns_received s + 1,
            ns_X := X1\<rparr>) = Inr s'"
      by blast
    from advanceAll_shape [OF this] have "ns_N s' = AList.update node m (ns_N s)" by simp
    then have "oldLens s' node = (length (Nom m), length (Acc m))"
      by (simp add: oldLens_def update_conv')
    then show ?thesis by (simp add: NominationState_Handle_def)
  next
    case False
    with run lens have "s' = s"
      by (auto simp add: NominationState_Handle_def split: if_splits)
    with run show ?thesis by simp
  qed
next
  assume "map_of (ns_N t) node' = Some old \<and> length (Nom m') \<le> length (Nom old)
          \<and> length (Acc m') \<le> length (Acc old)"
  then show "NominationState_Handle E node' m' t = Inr t"
    by (auto simp add: NominationState_Handle_def oldLens_def)
next
  assume "Compare E message message \<ge> 0
          \<and> BallotState_Handle E fuel sender message bs = Some (Inr bs')"
  then have refl: "Compare E message message \<ge> 0"
    and run: "BallotState_Handle E fuel sender message bs = Some (Inr bs')" by simp_all
  show "BallotState_Handle E fuel' sender message bs' = Some (Inr bs')"
  proof (cases "case map_of (bs_M bs) sender of None \<Rightarrow> False
                | Some old \<Rightarrow> Compare E old message \<ge> 0")
    case True
    with run have "bs' = bs" by (simp add: BallotState_Handle_def)
    with True show ?thesis by (simp add: BallotState_Handle_def)
  next
    case False
    let ?t = "bs\<lparr>bs_received := bs_received bs + 1,
                  bs_M := AList.update sender message (bs_M bs)\<rparr>"
    from run False have loop: "HandleLoop E fuel message ?t = Some (Inr bs')"
      by (simp add: BallotState_Handle_def)
    have "bs_M ?t = AList.update sender message (bs_M bs)" by simp
    from HandleLoop_preserves [of E "\<lambda>s. bs_M s = AList.update sender message (bs_M bs)",
        OF M_kept this loop]
    have "map_of (bs_M bs') sender = Some message" by (simp add: update_conv')
    with refl show ?thesis by (simp add: BallotState_Handle_def)
  qed
next
  assume "map_of (bs_M bt) sender' = Some stored \<and> Compare E stored message' \<ge> 0"
  then show "BallotState_Handle E fuel'' sender' message' bt = Some (Inr bt)"
    by (simp add: BallotState_Handle_def)
qed

theorem handle_idempotent_witness:
  "NominationState_Handle spec_env ''bar'' msg_first (NewNominationState ''foo'' duo) = Inr ns_first
   \<and> NominationState_Handle spec_env ''bar'' msg_first ns_first = Inr ns_first
   \<and> map_of (ns_N ns_second) ''bar'' = Some msg_replaced
   \<and> NominationState_Handle spec_env ''bar'' msg_first ns_second = Inr ns_second
   \<and> Compare spec_env msg_votes msg_votes \<ge> 0
   \<and> BallotState_Handle spec_env 1 ''bar'' msg_votes hn_start = Some (Inr hn_mid)
   \<and> BallotState_Handle spec_env 1 ''bar'' msg_votes hn_mid = Some (Inr hn_mid)
   \<and> map_of (bs_M hn_end) ''bar'' = Some msg_confirms
   \<and> Compare spec_env msg_confirms msg_votes \<ge> 0
   \<and> BallotState_Handle spec_env 1 ''bar'' msg_votes hn_end = Some (Inr hn_end)"
proof -
  have stored: "map_of (ns_N ns_second) ''bar'' = Some msg_replaced"
    and shorter: "length (Nom msg_first) \<le> length (Nom msg_replaced)"
      "length (Acc msg_first) \<le> length (Acc msg_replaced)"
    by (simp_all add: ns_second_def msg_first_def msg_replaced_def)
  have refl: "Compare spec_env msg_votes msg_votes \<ge> 0" by (simp add: spec_Compare_refl)
  have kept: "map_of (bs_M hn_end) ''bar'' = Some msg_confirms" by (simp add: hn_end_def)
  have below: "Compare spec_env msg_confirms msg_votes \<ge> 0"
    by (simp add: msg_confirms_def msg_votes_def spec_env_simps)
  from handle_idempotent [where E = spec_env and node = "''bar''" and m = msg_first
      and s = "NewNominationState ''foo'' duo" and s' = ns_first
      and t = ns_second and node' = "''bar''" and old = msg_replaced and m' = msg_first
      and message = msg_votes and fuel = 1 and fuel' = 1 and sender = "''bar''"
      and bs = hn_start and bs' = hn_mid
      and bt = hn_end and sender' = "''bar''" and stored = msg_confirms and message' = msg_votes
      and fuel'' = 1]
    handle_msg_first stored shorter refl handle_msg_votes kept below
  show ?thesis by simp
qed

text \<open>
  C5. Whenever \<open>MaybeAcceptAsCommitted(n, x)\<close> gets past its two early exits and a quorum has
  voted for or accepted the commit, or a blocking set has accepted it, the call returns
  true and the phase is Confirm; if \<open>b\<close> was nil or of another value, \<open>b\<close> becomes
  \<open>(n, x)\<close>, \<open>cn = hn = n\<close> and \<open>z = x\<close>; otherwise only the range changes, to
  \<open>[min cn n, max hn n]\<close>.
\<close>

theorem accept_committed_effect:
  assumes "bs_phase s \<noteq> Externalize"
    and "\<not> (bs_phase s = Confirm \<and> bs_cn s \<le> n \<and> n \<le> bs_hn s)"
    and "MeetsQuorum E (bs_publicKey s) (bs_QuorumSlice s) (committed_votedOrAccepted E n x s)
         \<or> BlockedBy E (bs_D s) (committed_accepted E n x s)"
  shows "MaybeAcceptAsCommitted E n x s =
           (True,
            if bs_b s = None \<or> bal_x (the (bs_b s)) \<noteq> x
            then s\<lparr>bs_phase := Confirm, bs_b := Some \<lparr>bal_n = n, bal_x = x\<rparr>,
                   bs_cn := n, bs_hn := n, bs_z := Some x\<rparr>
            else s\<lparr>bs_phase := Confirm, bs_cn := min (bs_cn s) n, bs_hn := max (bs_hn s) n\<rparr>)"
  using assms
  by (cases "bs_b s") (auto simp add: MaybeAcceptAsCommitted_def Let_def min_def max_def)

theorem accept_committed_effect_witness:
  "BlockedBy spec_env (bs_D st_voting) (committed_accepted spec_env 7 ''v'' st_voting)
   \<and> MaybeAcceptAsCommitted spec_env 7 ''v'' st_voting
       = (True, st_voting\<lparr>bs_phase := Confirm, bs_cn := 1, bs_hn := 7\<rparr>)"
proof -
  have blocked: "BlockedBy spec_env (bs_D st_voting) (committed_accepted spec_env 7 ''v'' st_voting)"
    by (simp add: st_voting_def st_prepared_def msg_confirms_high_def duo_def
        committed_accepted_def spec_env_simps)
  have "bs_phase st_voting \<noteq> Externalize"
    and "\<not> (bs_phase st_voting = Confirm \<and> bs_cn st_voting \<le> 7 \<and> 7 \<le> bs_hn st_voting)"
    by (simp_all add: st_voting_def st_prepared_def)
  from accept_committed_effect [OF this disjI2 [OF blocked]] blocked show ?thesis
    by (simp add: st_voting_def st_prepared_def)
qed

text \<open>
  C6. In the Prepare phase, if \<open>pPrime\<close> is not nil and \<open>pPrime.n \<ge> n\<close>, then
  \<open>MaybeAcceptAsPrepared(n, x)\<close> returns false and leaves the whole state as it was,
  whatever \<open>x\<close> and \<open>p\<close> are: also when \<open>x\<close> is incompatible with \<open>pPrime\<close>, and
  wherever \<open>n\<close> lies relative to \<open>p.n\<close>.
\<close>

theorem stale_prepared_ignored:
  assumes "bs_phase s = Prepare" and "bs_pPrime s = Some pp" and "bal_n pp \<ge> n"
  shows "MaybeAcceptAsPrepared E n x s = Inr (False, s)"
  using assms by (simp add: MaybeAcceptAsPrepared_def)

theorem stale_prepared_ignored_witness:
  "bs_phase st_stale = Prepare \<and> bs_pPrime st_stale = Some \<lparr>bal_n = 5, bal_x = ''b''\<rparr>
   \<and> MaybeAcceptAsPrepared spec_env 4 ''c'' st_stale = Inr (False, st_stale)"
  using stale_prepared_ignored [of st_stale "\<lparr>bal_n = 5, bal_x = ''b''\<rparr>" 4 spec_env "''c''"]
  by (simp add: st_stale_def NewBallotState_def)

text \<open>
  C7. If \<open>MaybeConfirmAsPrepared(n, x)\<close> runs in the Prepare phase with \<open>hn < n\<close> and finds a
  quorum that accepts \<open>(n, x)\<close> as prepared while \<open>cn > 0\<close> and \<open>x\<close> differs from \<open>b.x\<close>,
  it aborts with the fatal message instead of returning a state.
\<close>

theorem contradiction_aborts:
  assumes "bs_phase s = Prepare" and "bs_hn s < n"
    and "MeetsQuorum E (bs_publicKey s) (bs_QuorumSlice s) (confirm_prepared_accepted E n x s)"
    and "bs_cn s > 0" and "bs_b s = Some bb" and "x \<noteq> bal_x bb"
  shows "MaybeConfirmAsPrepared E n x s
         = Inl (InvariantViolation ''we are voting to commit but must confirm a contradiction'')"
  using assms by (simp add: MaybeConfirmAsPrepared_def)

theorem contradiction_aborts_witness:
  "MeetsQuorum spec_env (bs_publicKey st_contra) (bs_QuorumSlice st_contra)
     (confirm_prepared_accepted spec_env 2 ''c'' st_contra)
   \<and> MaybeConfirmAsPrepared spec_env 2 ''c'' st_contra
       = Inl (InvariantViolation ''we are voting to commit but must confirm a contradiction'')"
proof -
  have quorum: "MeetsQuorum spec_env (bs_publicKey st_contra) (bs_QuorumSlice st_contra)
      (confirm_prepared_accepted spec_env 2 ''c'' st_contra)"
    by (simp add: st_contra_def NewBallotState_def confirm_prepared_accepted_def
        bs_QuorumSlice_def solo_def spec_env_simps)
  have "bs_phase st_contra = Prepare" and "bs_hn st_contra < 2"
    by (simp_all add: st_contra_def NewBallotState_def)
  from contradiction_aborts [OF this quorum, of "\<lparr>bal_n = 1, bal_x = ''a''\<rparr>"] quorum
  show ?thesis by (simp add: st_contra_def NewBallotState_def)
qed




text \<open>
  C9. For a message that \<open>Handle\<close> of the nomination state accepts (neither list shorter
  than the stored one, one of them longer), the values collected as touched and passed to
  \<open>MaybeAdvance\<close> are exactly those at the indices from the old lengths on, in \<open>Nom\<close> and in
  \<open>Acc\<close>; \<open>X\<close> gains exactly the values of \<open>Nom\<close> from the old length on, and \<open>Y\<close> and \<open>Z\<close>
  gain touched values only. So an entry below the old length that has changed is not
  looked at, unless the same value occurs again further on.
\<close>

theorem handle_examines_suffix:
  assumes "oldLens s node = (oldLenNom, oldLenAcc)"
    and "oldLenNom \<le> length (Nom m)" and "oldLenAcc \<le> length (Acc m)"
    and "oldLenNom < length (Nom m) \<or> oldLenAcc < length (Acc m)"
    and "NominationState_Handle E node m s = Inr s'"
  shows "\<exists>touched.
           set touched = set (drop oldLenNom (Nom m)) \<union> set (drop oldLenAcc (Acc m))
           \<and> advanceAll E touched
                (s\<lparr>ns_N := AList.update node m (ns_N s), ns_received := ns_received s + 1,
                   ns_X := ns_X s'\<rparr>) = Inr s'
           \<and> set (ns_X s') = set (ns_X s) \<union> set (drop oldLenNom (Nom m))
           \<and> set (ns_Y s') \<subseteq> set (ns_Y s) \<union> set touched
           \<and> set (ns_Z s') \<subseteq> set (ns_Z s) \<union> set touched"
proof -
  from NominationState_Handle_accepted [OF assms] obtain touched X1 where
    t: "set touched = set (drop oldLenNom (Nom m)) \<union> set (drop oldLenAcc (Acc m))"
    and X1: "set X1 = set (ns_X s) \<union> set (drop oldLenNom (Nom m))"
    and adv: "advanceAll E touched
                (s\<lparr>ns_N := AList.update node m (ns_N s), ns_received := ns_received s + 1,
                   ns_X := X1\<rparr>) = Inr s'"
    by blast
  from advanceAll_shape [OF adv]
  have "ns_X s' = X1" "set (ns_Y s') \<subseteq> set (ns_Y s) \<union> set touched"
    "set (ns_Z s') \<subseteq> set (ns_Z s) \<union> set touched"
    by simp_all
  with t X1 adv show ?thesis by blast
qed

theorem handle_examines_suffix_witness:
  "oldLens ns_first ''bar'' = (1, 0)
   \<and> NominationState_Handle spec_env ''bar'' msg_replaced ns_first = Inr ns_second
   \<and> Nom msg_replaced ! 0 = ''z'' \<and> ''z'' \<notin> set (ns_X ns_second) \<and> ''z'' \<notin> set (ns_Y ns_second)
   \<and> set (ns_X ns_second) = set (ns_X ns_first) \<union> set (drop 1 (Nom msg_replaced))"
proof -
  have lens: "oldLens ns_first ''bar'' = (1, 0)"
    by (simp add: oldLens_def ns_first_def msg_first_def)
  have "1 \<le> length (Nom msg_replaced)" "0 \<le> length (Acc msg_replaced)"
    "1 < length (Nom msg_replaced) \<or> 0 < length (Acc msg_replaced)"
    by (simp_all add: msg_replaced_def)
  from handle_examines_suffix [OF lens this handle_msg_replaced] lens handle_msg_replaced
  show ?thesis
    by (auto simp add: msg_replaced_def ns_second_def ns_first_def)
qed



end
